theory Spec2Isabelle
  imports Main "HOL-Library.Word" "HOL-Library.Monad_Syntax"
begin

unbundle bit_operations_syntax

section \<open>The allocation index: the AVL tree of AVL.cpp\<close>

text \<open>
  Keys and values of the tree are \<open>void *\<close>: 64-bit words.  The layer stores the base
  address of a region as key and its size in bytes as value.  A node carries the stored
  height and the dirty flag; the diagnostic fields \<open>creator\<close> and \<open>callStack\<close> are
  left out.  \<open>NullNode\<close> is the null pointer.
\<close>

type_synonym addr = "64 word"

datatype AVLTreeNode =
    NullNode
  | Node (left: AVLTreeNode) (key: addr) (val: "64 word") (height: int)
         (dirty: "32 word") (right: AVLTreeNode)

record AVLTreeData =
  root :: AVLTreeNode
  size_avl :: int

text \<open>\<open>MyComparator\<close> (SharedHeap.cpp): the sign of the difference read as \<open>intptr_t\<close>.\<close>

definition MyComparator :: "addr \<Rightarrow> addr \<Rightarrow> int" where
  "MyComparator key1 key2 =
     (let diff = sint (key1 - key2)
      in if diff = 0 then 0 else if diff > 0 then 1 else -1)"

definition CreateAVL :: AVLTreeData where
  "CreateAVL = \<lparr>root = NullNode, size_avl = 0\<rparr>"

fun GetHeight :: "AVLTreeNode \<Rightarrow> int" where
  "GetHeight NullNode = 0"
| "GetHeight (Node l k v h d r) = h"

fun GetBalance :: "AVLTreeNode \<Rightarrow> int" where
  "GetBalance NullNode = 0"
| "GetBalance (Node l k v h d r) =
     (let balance = 0;
          balance = (if l \<noteq> NullNode then balance - height l else balance);
          balance = (if r \<noteq> NullNode then balance + height r else balance)
      in balance)"

text \<open>
  The rotations rewire the pointers \<open>a\<close> .. \<open>e\<close> of the source.  A rotation applied to
  a node that lacks the child it dereferences would crash; Balance never calls one
  there, and the model returns such a node unchanged.  In RotateSingleRight both
  \<open>left\<close> and \<open>right\<close> are read from \<open>b\<close>, as in the source.
\<close>

fun RotateSingleRight :: "AVLTreeNode \<Rightarrow> AVLTreeNode" where
  "RotateSingleRight (Node (Node a dk dv dh dd b) ek ev eh ed c) =
     (let left = GetHeight b;
          right = GetHeight b;
          eh' = (if left > right then left else right) + 1;
          dh' = eh' + 1
      in Node a dk dv dh' dd (Node b ek ev eh' ed c))"
| "RotateSingleRight t = t"

fun RotateSingleLeft :: "AVLTreeNode \<Rightarrow> AVLTreeNode" where
  "RotateSingleLeft (Node a dk dv dh dd (Node b ek ev eh ed c)) =
     (let left = GetHeight a;
          right = GetHeight b;
          dh' = (if left > right then left else right) + 1;
          eh' = dh' + 1
      in Node (Node a dk dv dh' dd b) ek ev eh' ed c)"
| "RotateSingleLeft t = t"

fun RotateDoubleRight :: "AVLTreeNode \<Rightarrow> AVLTreeNode" where
  "RotateDoubleRight (Node l k v h d r) = RotateSingleRight (Node (RotateSingleLeft l) k v h d r)"
| "RotateDoubleRight NullNode = NullNode"

fun RotateDoubleLeft :: "AVLTreeNode \<Rightarrow> AVLTreeNode" where
  "RotateDoubleLeft (Node l k v h d r) = RotateSingleLeft (Node l k v h d (RotateSingleRight r))"
| "RotateDoubleLeft NullNode = NullNode"

fun set_height :: "AVLTreeNode \<Rightarrow> AVLTreeNode" where
  "set_height NullNode = NullNode"
| "set_height (Node l k v h d r) =
     (let left = GetHeight l; right = GetHeight r
      in Node l k v ((if left > right then left else right) + 1) d r)"

fun Balance :: "AVLTreeNode \<Rightarrow> AVLTreeNode" where
  "Balance NullNode = NullNode"
| "Balance (Node l k v h d r) =
     (let node = Node l k v h d r;
          balance = GetBalance node;
          node = (if balance < -1 then
                    (if GetBalance l > 0 then RotateDoubleRight node
                     else RotateSingleRight node)
                  else if balance > 1 then
                    (if GetBalance r < 0 then RotateDoubleLeft node
                     else RotateSingleLeft node)
                  else node)
      in set_height node)"

text \<open>
  Insert returns the value already stored under the key (null when the key is new), the
  rewritten subtree, and the increment of \<open>data->size\<close>.  A node created below an
  existing node does not get its \<open>dirty\<close> field written: it keeps what the fresh block
  held, passed here as \<open>junk\<close>.
\<close>

fun Insert :: "AVLTreeNode \<Rightarrow> addr \<Rightarrow> 64 word \<Rightarrow> 32 word \<Rightarrow> 64 word \<times> AVLTreeNode \<times> int" where
  "Insert NullNode k v junk = (0, Node NullNode k v 1 0 NullNode, 1)"
| "Insert (Node l nk nv h d r) k v junk =
     (let rc = MyComparator k nk in
      if rc < 0 then
        (if l \<noteq> NullNode then
           (case Insert l k v junk of
              (result, l', inc) \<Rightarrow> (result, Balance (Node l' nk nv h d r), inc))
         else
           (let np = Node NullNode k v 1 junk NullNode;
                h' = (if (r \<noteq> NullNode \<and> np = NullNode) \<or> (np \<noteq> NullNode \<and> r = NullNode)
                      then h + 1 else h)
            in (0, Balance (Node np nk nv h' d r), 1)))
      else if rc > 0 then
        (if r \<noteq> NullNode then
           (case Insert r k v junk of
              (result, r', inc) \<Rightarrow> (result, Balance (Node l nk nv h d r'), inc))
         else
           (let np = Node NullNode k v 1 junk NullNode;
                h' = (if (np \<noteq> NullNode \<and> l = NullNode) \<or> (l \<noteq> NullNode \<and> np = NullNode)
                      then h + 1 else h)
            in (0, Balance (Node l nk nv h' d np), 1)))
      else (nv, Node l nk nv h d r, 0))"

definition InsertAVL :: "AVLTreeData \<Rightarrow> addr \<Rightarrow> 64 word \<Rightarrow> 32 word \<Rightarrow> 64 word \<times> AVLTreeData" where
  "InsertAVL tree k v junk =
     (case Insert (root tree) k v junk of
        (result, node, inc) \<Rightarrow>
          (result, tree\<lparr>root := Balance node, size_avl := size_avl tree + inc\<rparr>))"

text \<open>
  RemoveLeftMost and RemoveRightMost detach a node and hand it back; the caller only
  reads its key and value, which is what the model returns with the remaining subtree.
\<close>

fun RemoveLeftMost :: "AVLTreeNode \<Rightarrow> (addr \<times> 64 word) \<times> AVLTreeNode" where
  "RemoveLeftMost NullNode = ((0, 0), NullNode)"
| "RemoveLeftMost (Node l k v h d r) =
     (if l \<noteq> NullNode then
        (case RemoveLeftMost l of
           (np, l') \<Rightarrow>
             (let lh = (if l' \<noteq> NullNode then height l' + 1 else 0);
                  rh = (if r \<noteq> NullNode then height r + 1 else 0)
              in (np, Balance (Node l' k v (if rh > lh then rh else lh) d r))))
      else ((k, v), r))"

fun RemoveRightMost :: "AVLTreeNode \<Rightarrow> (addr \<times> 64 word) \<times> AVLTreeNode" where
  "RemoveRightMost NullNode = ((0, 0), NullNode)"
| "RemoveRightMost (Node l k v h d r) =
     (if r \<noteq> NullNode then
        (case RemoveRightMost r of
           (np, r') \<Rightarrow>
             (let lh = (if l \<noteq> NullNode then height l + 1 else 0);
                  rh = (if r' \<noteq> NullNode then height r' + 1 else 0)
              in (np, Balance (Node l k v (if rh > lh then rh else lh) d r'))))
      else ((k, v), l))"

text \<open>Remove returns the removed value (null when absent), the subtree, and the decrement of the size.\<close>

fun Remove :: "AVLTreeNode \<Rightarrow> addr \<Rightarrow> 64 word \<times> AVLTreeNode \<times> int" where
  "Remove NullNode k = (0, NullNode, 0)"
| "Remove (Node l nk nv h d r) k =
     (let rc = MyComparator k nk in
      if rc < 0 then
        (case Remove l k of
           (result, l', dec) \<Rightarrow> (result, Balance (Node l' nk nv h d r), dec))
      else if rc > 0 then
        (case Remove r k of
           (result, r', dec) \<Rightarrow> (result, Balance (Node l nk nv h d r'), dec))
      else
        (if r \<noteq> NullNode then
           (case RemoveLeftMost r of
              ((pk, pv), r') \<Rightarrow> (nv, Balance (Node l pk pv h d r'), 1))
         else if l \<noteq> NullNode then
           (case RemoveRightMost l of
              ((pk, pv), l') \<Rightarrow> (nv, Balance (Node l' pk pv h d r), 1))
         else (nv, NullNode, 1)))"

definition RemoveAVL :: "AVLTreeData \<Rightarrow> addr \<Rightarrow> 64 word \<times> AVLTreeData" where
  "RemoveAVL tree k =
     (case Remove (root tree) k of
        (result, node, dec) \<Rightarrow> (result, tree\<lparr>root := node, size_avl := size_avl tree - dec\<rparr>))"

text \<open>The two lookups are loops over \<open>np\<close>; each iteration moves to a child.\<close>

fun Find :: "AVLTreeNode \<Rightarrow> addr \<Rightarrow> 64 word" where
  "Find NullNode k = 0"
| "Find (Node l nk nv h d r) k =
     (let rc = MyComparator k nk in
      if rc < 0 then Find l k
      else if rc > 0 then Find r k
      else nv)"

definition FindAVL :: "AVLTreeData \<Rightarrow> addr \<Rightarrow> 64 word" where
  "FindAVL tree k = Find (root tree) k"

fun FindRange :: "AVLTreeNode \<Rightarrow> addr \<Rightarrow> AVLTreeNode" where
  "FindRange NullNode k = NullNode"
| "FindRange (Node l nk nv h d r) k =
     (let rc = MyComparator k nk in
      if rc < 0 then FindRange l k
      else if rc > 0 then
        (if nk + nv > k then Node l nk nv h d r else FindRange r k)
      else Node l nk nv h d r)"

definition FindRangeAVL :: "AVLTreeData \<Rightarrow> addr \<Rightarrow> AVLTreeNode" where
  "FindRangeAVL tree k = FindRange (root tree) k"

section \<open>Process state outside the index\<close>

text \<open>
  The globals of SharedHeap.cpp that the page routines read and write, together with
  what the kernel keeps for this process.  A computation that ends the process
  (\<open>Fatal\<close>, \<open>die\<close>, a failed \<open>ASSERTX\<close>, a crash) has the value \<open>None\<close>.

  The kernel and libc are outside the program.  Their answers (the address or
  \<open>MAP_FAILED\<close> of an \<open>mmap\<close> or \<open>mremap\<close>, the result of a \<open>memcmp\<close>, the pointer
  of the small-object allocator) are read one after the other from \<open>kernel\<close>, an
  arbitrary sequence, with \<open>tick\<close> counting the answers consumed; page contents are
  application data and are not stored.  \<open>vmap\<close> is the page table the \<open>mmap\<close> family
  leaves behind and \<open>copies\<close> the list of \<open>memcpy\<close> calls made.  \<open>munmap\<close> and
  \<open>mprotect\<close> are taken to succeed.  The semaphore, \<open>errno\<close>, the statistics
  buffer and all printing are left out; so are the branches compiled out by the
  configuration of SharedHeap.h (\<open>COLLECT_MALLOC_STAT\<close> and \<open>SHARED_STATS\<close> defined,
  \<open>MREMAP_FIXED\<close> available, an x86-64 target).
\<close>

datatype prot = PROT_READ | PROT_READ_WRITE

datatype vpage =
    Anon prot              \<comment> \<open>\<open>MAP_PRIVATE | MAP_ANONYMOUS\<close>\<close>
  | File "64 word" prot    \<comment> \<open>\<open>MAP_SHARED\<close> of the backing file, at this offset\<close>

record pstate =
  PAGE_SIZE :: "64 word"
  log2PAGE_SIZE :: nat
  sharedHeapBottom :: addr
  sharedHeapTop :: addr
  numProc :: int
  myRank :: "32 word"
  currProcMask :: "64 word"
  currProcMaskInverted :: "64 word"
  sharingProcessesInfo :: "(nat \<Rightarrow> 16 word) option"
  aliveProcs :: "32 word"
  sharedPageCount :: "32 word"
  allProcPrivatePageCount :: "32 word"
  baseCaseTotalPageCount :: "32 word"
  initializedPagesBV :: "nat \<Rightarrow> 8 word"
  zeroPagesBV :: "nat \<Rightarrow> 8 word"
  zeroPageCount :: "32 word"
  mmapCount :: "32 word"
  vmap :: "addr \<Rightarrow> vpage option"
  kernel :: "nat \<Rightarrow> 64 word"
  tick :: nat
  copies :: "(addr \<times> addr \<times> 64 word) list"

definition MAP_FAILED :: addr where
  "MAP_FAILED = - 1"

definition MMAP_BUFFER_SIZE :: "64 word" where
  "MMAP_BUFFER_SIZE = 4 * 1024 * 1024"

subsection \<open>Kernel calls\<close>

definition in_range :: "addr \<Rightarrow> 64 word \<Rightarrow> addr \<Rightarrow> bool" where
  "in_range a len x = (a \<le> x \<and> x - a < len)"

definition set_prot :: "prot \<Rightarrow> vpage \<Rightarrow> vpage" where
  "set_prot pr pg = (case pg of Anon _ \<Rightarrow> Anon pr | File off _ \<Rightarrow> File off pr)"

text \<open>
  \<open>SH_MMAP\<close> counts the call, then calls \<open>mmap64\<close>.  \<open>file = None\<close> is an anonymous
  private mapping, \<open>file = Some off\<close> a shared mapping of the backing file from offset
  \<open>off\<close>.  With \<open>fixed\<close> the mapping replaces what was at \<open>hint\<close>.
\<close>

definition SH_MMAP :: "pstate \<Rightarrow> addr \<Rightarrow> 64 word \<Rightarrow> prot \<Rightarrow> bool \<Rightarrow> 64 word option \<Rightarrow> addr \<times> pstate" where
  "SH_MMAP s hint len pr fixed file =
     (let s1 = s\<lparr>mmapCount := mmapCount s + 1, tick := tick s + 1\<rparr>;
          r = kernel s (tick s)
      in if r = MAP_FAILED then (MAP_FAILED, s1)
         else
           (let a = (if fixed then hint else r)
            in (a, s1\<lparr>vmap := (\<lambda>x. if in_range a len x
                                     then Some (case file of
                                                  None \<Rightarrow> Anon pr
                                                | Some off \<Rightarrow> File (off + (x - a)) pr)
                                     else vmap s x)\<rparr>)))"

definition SH_UNMAP :: "pstate \<Rightarrow> addr \<Rightarrow> 64 word \<Rightarrow> pstate" where
  "SH_UNMAP s a len =
     s\<lparr>mmapCount := mmapCount s - 1,
       vmap := (\<lambda>x. if in_range a len x then None else vmap s x)\<rparr>"

text \<open>\<open>mremap(old, len, len, MREMAP_MAYMOVE | MREMAP_FIXED, new)\<close>.\<close>

definition sys_mremap :: "pstate \<Rightarrow> addr \<Rightarrow> 64 word \<Rightarrow> addr \<Rightarrow> addr \<times> pstate" where
  "sys_mremap s old len new =
     (let s1 = s\<lparr>tick := tick s + 1\<rparr>;
          r = kernel s (tick s)
      in if r = MAP_FAILED then (MAP_FAILED, s1)
         else (new, s1\<lparr>vmap := (\<lambda>x. if in_range new len x then vmap s (old + (x - new))
                                      else if in_range old len x then None
                                      else vmap s x)\<rparr>))"

definition sys_mprotect :: "pstate \<Rightarrow> addr \<Rightarrow> 64 word \<Rightarrow> prot \<Rightarrow> pstate" where
  "sys_mprotect s a len pr =
     s\<lparr>vmap := (\<lambda>x. if in_range a len x then map_option (set_prot pr) (vmap s x)
                     else vmap s x)\<rparr>"

definition MakeReadOnlyWrapper :: "pstate \<Rightarrow> addr \<Rightarrow> 64 word \<Rightarrow> pstate" where
  "MakeReadOnlyWrapper s a len = sys_mprotect s a len PROT_READ"

definition MakeReadWriteWrapper :: "pstate \<Rightarrow> addr \<Rightarrow> 64 word \<Rightarrow> pstate" where
  "MakeReadWriteWrapper s a len = sys_mprotect s a len PROT_READ_WRITE"

text \<open>\<open>compare_pages\<close> is \<open>memcmp\<close> over one page: true when it returns 0.\<close>

definition compare_pages :: "pstate \<Rightarrow> addr \<Rightarrow> addr \<Rightarrow> bool \<times> pstate" where
  "compare_pages s a b = (kernel s (tick s) = 0, s\<lparr>tick := tick s + 1\<rparr>)"

definition memcpy :: "pstate \<Rightarrow> addr \<Rightarrow> addr \<Rightarrow> 64 word \<Rightarrow> pstate" where
  "memcpy s dst src n = s\<lparr>copies := copies s @ [(dst, src, n)]\<rparr>"

definition IsCloseToMmapLimit :: "pstate \<Rightarrow> bool" where
  "IsCloseToMmapLimit s = False"

text \<open>
  The offsets \<open>0, PAGE_SIZE, 2 * PAGE_SIZE, ...\<close> below \<open>size\<close> that the page loops
  \<open>for (s = 0; s < size; s += PAGE_SIZE)\<close> run through.  A page size of 0 would make
  such a loop spin forever: no result.
\<close>

definition page_offsets :: "pstate \<Rightarrow> 64 word \<Rightarrow> 64 word list option" where
  "page_offsets s len =
     (if PAGE_SIZE s = 0 then None
      else Some (map (\<lambda>i. of_nat (i * unat (PAGE_SIZE s)))
                   [0 ..< (unat len + unat (PAGE_SIZE s) - 1) div unat (PAGE_SIZE s)]))"

subsection \<open>Bit vectors\<close>

definition TranslateMmapAddr :: "pstate \<Rightarrow> addr \<Rightarrow> addr option" where
  "TranslateMmapAddr s a =
     (if a > sharedHeapBottom s \<and> a < sharedHeapTop s then Some (a - sharedHeapBottom s)
      else None)"

definition Addr2PageIndex :: "pstate \<Rightarrow> addr \<Rightarrow> 64 word option" where
  "Addr2PageIndex s a = do {
     t \<leftarrow> TranslateMmapAddr s a;
     Some (drop_bit (log2PAGE_SIZE s) t)
   }"

definition bit_mask :: "64 word \<Rightarrow> 8 word" where
  "bit_mask index = push_bit (unat (index AND 7)) 1"

definition GetBit :: "pstate \<Rightarrow> (nat \<Rightarrow> 8 word) \<Rightarrow> addr \<Rightarrow> bool option" where
  "GetBit s array page_address = do {
     index \<leftarrow> Addr2PageIndex s page_address;
     Some (array (unat (drop_bit 3 index)) AND bit_mask index \<noteq> 0)
   }"

definition SetBit :: "pstate \<Rightarrow> (nat \<Rightarrow> 8 word) \<Rightarrow> addr \<Rightarrow> (nat \<Rightarrow> 8 word) option" where
  "SetBit s array page_address = do {
     index \<leftarrow> Addr2PageIndex s page_address;
     Some (array (unat (drop_bit 3 index) := array (unat (drop_bit 3 index)) OR bit_mask index))
   }"

definition UnsetBit :: "pstate \<Rightarrow> (nat \<Rightarrow> 8 word) \<Rightarrow> addr \<Rightarrow> (nat \<Rightarrow> 8 word) option" where
  "UnsetBit s array page_address = do {
     index \<leftarrow> Addr2PageIndex s page_address;
     Some (array (unat (drop_bit 3 index) := array (unat (drop_bit 3 index)) AND NOT (bit_mask index)))
   }"

function SetMultiBits_loop :: "(nat \<Rightarrow> 8 word) \<Rightarrow> 64 word \<Rightarrow> int \<Rightarrow> nat \<Rightarrow> 8 word" where
  "SetMultiBits_loop array index bsize =
     (if bsize > 0 then
        (if unat index mod 8 = 0 \<and> bsize \<ge> 8 then
           SetMultiBits_loop (array (unat (drop_bit 3 index) := 255)) (index + 8) (bsize - 8)
         else
           SetMultiBits_loop
             (array (unat (drop_bit 3 index) := array (unat (drop_bit 3 index)) OR bit_mask index))
             (index + 1) (bsize - 1))
      else array)"
  by pat_completeness auto
termination
  by (relation "measure (\<lambda>(array, index, bsize). nat bsize)") auto

definition SetMultiBits :: "pstate \<Rightarrow> (nat \<Rightarrow> 8 word) \<Rightarrow> addr \<Rightarrow> 64 word \<Rightarrow> (nat \<Rightarrow> 8 word) option" where
  "SetMultiBits s array page_address len = do {
     index \<leftarrow> Addr2PageIndex s page_address;
     Some (SetMultiBits_loop array index (sint (ucast (drop_bit (log2PAGE_SIZE s) len) :: 32 word)))
   }"

definition SetAndReturnBit :: "pstate \<Rightarrow> (nat \<Rightarrow> 8 word) \<Rightarrow> addr \<Rightarrow> (bool \<times> (nat \<Rightarrow> 8 word)) option" where
  "SetAndReturnBit s array page_address = do {
     index \<leftarrow> Addr2PageIndex s page_address;
     Some (array (unat (drop_bit 3 index)) AND bit_mask index \<noteq> 0,
           array (unat (drop_bit 3 index) := array (unat (drop_bit 3 index)) OR bit_mask index))
   }"

definition ResetAndReturnBit :: "pstate \<Rightarrow> (nat \<Rightarrow> 8 word) \<Rightarrow> addr \<Rightarrow> (bool \<times> (nat \<Rightarrow> 8 word)) option" where
  "ResetAndReturnBit s array page_address = do {
     index \<leftarrow> Addr2PageIndex s page_address;
     Some (array (unat (drop_bit 3 index)) AND bit_mask index \<noteq> 0,
           array (unat (drop_bit 3 index) := array (unat (drop_bit 3 index)) AND NOT (bit_mask index)))
   }"

subsection \<open>The holder bitmap\<close>

text \<open>
  \<open>sharingProcessesInfo\<close> is read as an array of \<open>uint8_t\<close> when \<open>numProc\<close> is 8 and
  of \<open>uint16_t\<close> otherwise; entry \<open>index\<close> of the model is element \<open>index\<close> of that
  array.  A null \<open>sharingProcessesInfo\<close> is \<open>None\<close>.
\<close>

definition load_entry :: "pstate \<Rightarrow> (nat \<Rightarrow> 16 word) \<Rightarrow> 64 word \<Rightarrow> 64 word" where
  "load_entry s info index =
     (if numProc s = 8 then ucast (ucast (info (unat index)) :: 8 word)
      else ucast (info (unat index)))"

definition store_entry :: "pstate \<Rightarrow> (nat \<Rightarrow> 16 word) \<Rightarrow> 64 word \<Rightarrow> 64 word \<Rightarrow> nat \<Rightarrow> 16 word" where
  "store_entry s info index v =
     (if numProc s = 8 then info (unat index := ucast (ucast v :: 8 word))
      else info (unat index := ucast v))"

function count_bits :: "64 word \<Rightarrow> nat \<Rightarrow> nat" where
  "count_bits x count = (if x \<noteq> 0 then count_bits (x AND (x - 1)) (count + 1) else count)"
  by pat_completeness auto
termination
proof (relation "measure (\<lambda>(x, count). unat x)")
  show "wf (measure (\<lambda>(x :: 64 word, count :: nat). unat x))" by simp
next
  fix x :: "64 word" and count :: nat
  assume "x \<noteq> 0"
  then have "x - 1 < x" by (simp add: word_less_nat_alt unat_minus_one unat_gt_0 [symmetric] unat_eq_zero)
  moreover have "x AND (x - 1) \<le> x - 1" by (rule word_and_le1)
  ultimately have "x AND (x - 1) < x" by simp
  then show "((x AND (x - 1), count + 1), (x, count)) \<in> measure (\<lambda>(x, count). unat x)"
    by (simp add: word_less_nat_alt)
qed

definition CountSharingProcs :: "pstate \<Rightarrow> addr \<Rightarrow> nat option" where
  "CountSharingProcs s a =
     (case sharingProcessesInfo s of
        None \<Rightarrow> Some 0
      | Some info \<Rightarrow> do {
          index \<leftarrow> Addr2PageIndex s a;
          Some (count_bits (load_entry s info index) 0)
        })"

definition SetSharingBit :: "pstate \<Rightarrow> addr \<Rightarrow> pstate option" where
  "SetSharingBit s a =
     (case sharingProcessesInfo s of
        None \<Rightarrow> Some s
      | Some info \<Rightarrow> do {
          index \<leftarrow> Addr2PageIndex s a;
          if numProc s = 8 \<or> numProc s = 16 then
            Some (s\<lparr>sharingProcessesInfo :=
                      Some (store_entry s info index (load_entry s info index OR currProcMask s))\<rparr>)
          else None
        })"

definition UnsetSharingBit :: "pstate \<Rightarrow> addr \<Rightarrow> pstate option" where
  "UnsetSharingBit s a =
     (case sharingProcessesInfo s of
        None \<Rightarrow> Some s
      | Some info \<Rightarrow> do {
          index \<leftarrow> Addr2PageIndex s a;
          if numProc s = 8 \<or> numProc s = 16 then
            Some (s\<lparr>sharingProcessesInfo :=
                      Some (store_entry s info index (load_entry s info index AND currProcMaskInverted s))\<rparr>)
          else None
        })"

definition GetSharingBit :: "pstate \<Rightarrow> addr \<Rightarrow> bool option" where
  "GetSharingBit s a =
     (case sharingProcessesInfo s of
        None \<Rightarrow> Some False
      | Some info \<Rightarrow> do {
          index \<leftarrow> Addr2PageIndex s a;
          if numProc s = 8 \<or> numProc s = 16 then
            Some (load_entry s info index AND currProcMask s \<noteq> 0)
          else None
        })"

definition IsOtherSharing :: "pstate \<Rightarrow> addr \<Rightarrow> bool option" where
  "IsOtherSharing s a =
     (case sharingProcessesInfo s of
        None \<Rightarrow> Some False
      | Some info \<Rightarrow> do {
          index \<leftarrow> Addr2PageIndex s a;
          if numProc s = 8 \<or> numProc s = 16 then
            Some (load_entry s info index AND currProcMaskInverted s \<noteq> 0)
          else None
        })"

subsection \<open>Remapping a run of pages\<close>

definition GetSharedRegion :: "pstate \<Rightarrow> addr \<Rightarrow> bool \<Rightarrow> 64 word \<Rightarrow> (addr \<times> pstate) option" where
  "GetSharedRegion s a isFixed len = do {
     page_address \<leftarrow> TranslateMmapAddr s a;
     if \<not> page_address < 0xc0000000 then None
     else Some (SH_MMAP s (if isFixed then a else 0) len PROT_READ_WRITE isFixed (Some page_address))
   }"

definition GetSharedPage :: "pstate \<Rightarrow> addr \<Rightarrow> bool \<Rightarrow> (addr \<times> pstate) option" where
  "GetSharedPage s a isFixed = GetSharedRegion s a isFixed (PAGE_SIZE s)"

fun SetSharingBit_pages :: "pstate \<Rightarrow> addr \<Rightarrow> 64 word list \<Rightarrow> pstate option" where
  "SetSharingBit_pages s start [] = Some s"
| "SetSharingBit_pages s start (off # offs) = do {
     s1 \<leftarrow> SetSharingBit s (start + off);
     SetSharingBit_pages s1 start offs
   }"

definition CopyAndRemapRegion :: "pstate \<Rightarrow> addr \<Rightarrow> 64 word \<Rightarrow> (int \<times> pstate) option" where
  "CopyAndRemapRegion s start len = do {
     (p0, s1) \<leftarrow> GetSharedRegion s start False len;
     if p0 = MAP_FAILED then Some (- 1, s1)
     else do {
       let s2 = memcpy s1 p0 start len;
       let (p0', s3) = sys_mremap s2 p0 len start;
       if p0' = MAP_FAILED then None
       else do {
         offs \<leftarrow> page_offsets s3 len;
         s4 \<leftarrow> SetSharingBit_pages s3 start offs;
         Some (0, MakeReadOnlyWrapper s4 start len)
       }
     }
   }"

fun RemapRegion_pages :: "pstate \<Rightarrow> addr \<Rightarrow> 64 word list \<Rightarrow> pstate option" where
  "RemapRegion_pages s start [] = Some s"
| "RemapRegion_pages s start (off # offs) = do {
     cnt \<leftarrow> CountSharingProcs s (start + off);
     let s1 = (if cnt = 1
               then s\<lparr>sharedPageCount := sharedPageCount s + 1,
                      allProcPrivatePageCount := allProcPrivatePageCount s - 1\<rparr>
               else s);
     let s2 = s1\<lparr>allProcPrivatePageCount := allProcPrivatePageCount s1 - 1\<rparr>;
     s3 \<leftarrow> SetSharingBit s2 (start + off);
     RemapRegion_pages s3 start offs
   }"

definition RemapRegion :: "pstate \<Rightarrow> addr \<Rightarrow> 64 word \<Rightarrow> (int \<times> pstate) option" where
  "RemapRegion s start len = do {
     (p0, s1) \<leftarrow> GetSharedRegion s start True len;
     if p0 = MAP_FAILED then Some (- 1, s1)
     else if p0 \<noteq> start then None
     else do {
       offs \<leftarrow> page_offsets s1 len;
       s2 \<leftarrow> RemapRegion_pages s1 start offs;
       Some (0, MakeReadOnlyWrapper s2 start len)
     }
   }"

text \<open>
  The loop of RemapToZero maps one page after the other onto frame 0 of the backing
  file and leaves the function at the first refusal; the flag tells whether the loop
  ran to its end.
\<close>

fun RemapToZero_pages :: "pstate \<Rightarrow> addr \<Rightarrow> 64 word list \<Rightarrow> bool \<times> pstate" where
  "RemapToZero_pages s start [] = (True, s)"
| "RemapToZero_pages s start (off # offs) =
     (if IsCloseToMmapLimit s then (False, s)
      else
        (case SH_MMAP s (start + off) (PAGE_SIZE s) PROT_READ True (Some 0) of
           (p, s1) \<Rightarrow>
             if p = MAP_FAILED then (False, s1)
             else RemapToZero_pages
                    (s1\<lparr>zeroPageCount := zeroPageCount s1 + 1,
                        allProcPrivatePageCount := allProcPrivatePageCount s1 - 1\<rparr>)
                    start offs))"

definition RemapToZero :: "pstate \<Rightarrow> addr \<Rightarrow> 64 word \<Rightarrow> (int \<times> pstate) option" where
  "RemapToZero s start len = do {
     offs \<leftarrow> page_offsets s len;
     let (done, s1) = RemapToZero_pages s start offs;
     if \<not> done then Some (- 1, s1)
     else do {
       bv \<leftarrow> (if len > PAGE_SIZE s1 then SetMultiBits s1 (zeroPagesBV s1) start len
              else SetBit s1 (zeroPagesBV s1) start);
       Some (0, s1\<lparr>zeroPagesBV := bv\<rparr>)
     }
   }"

subsection \<open>The merge engine\<close>

text \<open>The local variables of MergeManyPages that live across iterations.\<close>

record merge_locals =
  last_page_zero :: bool
  last_page_moveable :: bool
  last_page_shareable :: bool
  mergeable_start_addr :: addr
  index_buf :: "32 word"
  mmap_buffer :: addr
  counter_pages_merged :: "32 word"

text \<open>
  The macro \<open>FLUSH_OUTSTANDING_MERGES(start, end, lps, lpm, lpz, caddr)\<close>; the results
  of the three remap routines are dropped, as in the source.
\<close>

definition FLUSH_OUTSTANDING_MERGES :: "pstate \<Rightarrow> merge_locals \<Rightarrow> addr \<Rightarrow> (merge_locals \<times> pstate) option" where
  "FLUSH_OUTSTANDING_MERGES s l e = do {
     (l1, s1) \<leftarrow>
       (if mergeable_start_addr l \<noteq> 0 then do {
          let start = mergeable_start_addr l;
          let len = e - start;
          s1 \<leftarrow> (if last_page_shareable l then map_option snd (RemapRegion s start len) else Some s);
          s2 \<leftarrow> (if last_page_moveable l then map_option snd (CopyAndRemapRegion s1 start len) else Some s1);
          s3 \<leftarrow> (if last_page_zero l then map_option snd (RemapToZero s2 start len) else Some s2);
          if PAGE_SIZE s3 = 0 then None
          else Some
            (if last_page_shareable l \<or> last_page_zero l
             then l\<lparr>counter_pages_merged := counter_pages_merged l + ucast (len div PAGE_SIZE s3)\<rparr>
             else l, s3)
        } else Some (l, s));
     Some (l1\<lparr>last_page_shareable := False, last_page_moveable := False, last_page_zero := False,
              mergeable_start_addr := 0\<rparr>, s1)
   }"

text \<open>
  One iteration of the loop of MergeManyPages, for the page at \<open>p\<close>.  The early exit
  behind \<open>IsCloseToMmapLimit()\<close> at the head of the loop is never taken, since that
  function returns false, and is left out.
\<close>

definition MergeManyPages_page :: "pstate \<Rightarrow> merge_locals \<Rightarrow> addr \<Rightarrow> (merge_locals \<times> pstate) option" where
  "MergeManyPages_page s l p =
     (do {
        (l, s) \<leftarrow>
          (if index_buf l = 0 \<or> index_buf l = 4 * 1024 * 1024 then do {
             let s = (if mmap_buffer l \<noteq> 0 then SH_UNMAP s (mmap_buffer l) MMAP_BUFFER_SIZE else s);
             (buf, s) \<leftarrow> GetSharedRegion s p False MMAP_BUFFER_SIZE;
             Some (l\<lparr>index_buf := 0, mmap_buffer := buf\<rparr>, s)
           } else Some (l, s));
        let curr_page_ptr = mmap_buffer l + scast (index_buf l);
        let l = l\<lparr>index_buf := index_buf l + ucast (PAGE_SIZE s)\<rparr>;
        if (if mergeable_start_addr l \<noteq> 0
            then \<not> ((last_page_zero l \<or> last_page_shareable l \<or> last_page_moveable l)
                    \<and> \<not> ((last_page_zero l \<and> last_page_shareable l)
                          \<or> (last_page_zero l \<and> last_page_moveable l)
                          \<or> (last_page_shareable l \<and> last_page_moveable l)))
            else last_page_zero l \<or> last_page_shareable l \<or> last_page_moveable l)
        then None
        else do {
          is_initialized_page \<leftarrow> GetBit s (initializedPagesBV s) p;
          if \<not> is_initialized_page then FLUSH_OUTSTANDING_MERGES s l p
          else do {
            is_zero_page \<leftarrow> GetBit s (zeroPagesBV s) p;
            if is_zero_page then FLUSH_OUTSTANDING_MERGES s l p
            else do {
              is_shared_page \<leftarrow> GetSharingBit s p;
              if is_shared_page then FLUSH_OUTSTANDING_MERGES s l p
              else do {
                let (zero_eq, s) = compare_pages s p 0;
                if zero_eq then
                  (if mergeable_start_addr l \<noteq> 0 \<and> last_page_zero l then Some (l, s)
                   else do {
                     (l, s) \<leftarrow> (if mergeable_start_addr l \<noteq> 0
                                then FLUSH_OUTSTANDING_MERGES s l p else Some (l, s));
                     Some (l\<lparr>mergeable_start_addr := p, last_page_zero := True\<rparr>, s)
                   })
                else do {
                  other \<leftarrow> IsOtherSharing s p;
                  if \<not> other then
                    (if mergeable_start_addr l \<noteq> 0 \<and> last_page_moveable l then Some (l, s)
                     else do {
                       (l, s) \<leftarrow> (if mergeable_start_addr l \<noteq> 0
                                  then FLUSH_OUTSTANDING_MERGES s l p else Some (l, s));
                       Some (l\<lparr>mergeable_start_addr := p, last_page_moveable := True\<rparr>, s)
                     })
                  else do {
                    (l, s) \<leftarrow> (if \<not> last_page_shareable l
                               then FLUSH_OUTSTANDING_MERGES s l p else Some (l, s));
                    if mmap_buffer l = MAP_FAILED then None
                    else do {
                      let (same, s) = compare_pages s curr_page_ptr p;
                      if same then
                        Some (if mergeable_start_addr l = 0
                              then l\<lparr>mergeable_start_addr := p, last_page_shareable := True\<rparr>
                              else l, s)
                      else FLUSH_OUTSTANDING_MERGES s l p
                    }
                  }
                }
              }
            }
          }
        }
      })"

fun MergeManyPages_pages :: "pstate \<Rightarrow> merge_locals \<Rightarrow> addr \<Rightarrow> 64 word list \<Rightarrow> (merge_locals \<times> pstate) option" where
  "MergeManyPages_pages s l start_addr [] = Some (l, s)"
| "MergeManyPages_pages s l start_addr (off # offs) = do {
     (l1, s1) \<leftarrow> MergeManyPages_page s l (start_addr + off);
     MergeManyPages_pages s1 l1 start_addr offs
   }"

definition MergeManyPages :: "pstate \<Rightarrow> addr \<Rightarrow> 64 word \<Rightarrow> (32 word \<times> pstate) option" where
  "MergeManyPages s start_addr len =
     (if sharingProcessesInfo s = None then None
      else do {
        let l = \<lparr>last_page_zero = False, last_page_moveable = False, last_page_shareable = False,
                 mergeable_start_addr = 0, index_buf = 0, mmap_buffer = 0,
                 counter_pages_merged = 0\<rparr>;
        offs \<leftarrow> page_offsets s len;
        (l, s) \<leftarrow> MergeManyPages_pages s l start_addr offs;
        let s = (if mmap_buffer l \<noteq> 0 then SH_UNMAP s (mmap_buffer l) MMAP_BUFFER_SIZE else s);
        (l, s) \<leftarrow> FLUSH_OUTSTANDING_MERGES s l (start_addr + len);
        Some (counter_pages_merged l, s)
      })"

text \<open>
  MergeNode2 is the visitor of the traversal: \<open>isDirty\<close> points at the dirty field of
  the visited node, and the model returns the new value of that field.
\<close>

definition MergeNode2 :: "addr \<Rightarrow> 64 word \<Rightarrow> 32 word \<Rightarrow> pstate \<Rightarrow> (32 word \<times> pstate) option" where
  "MergeNode2 k v isDirty s = do {
     t \<leftarrow> TranslateMmapAddr s k;
     if t = 0 then Some (isDirty, s)
     else if IsCloseToMmapLimit s then Some (isDirty, s)
     else if isDirty \<noteq> 0 then do {
       (merged_pages, s1) \<leftarrow> MergeManyPages s k v;
       Some (0, s1)
     }
     else Some (isDirty, s)
   }"

fun Traverse :: "(addr \<Rightarrow> 64 word \<Rightarrow> 32 word \<Rightarrow> pstate \<Rightarrow> (32 word \<times> pstate) option)
    \<Rightarrow> AVLTreeNode \<Rightarrow> pstate \<Rightarrow> (AVLTreeNode \<times> pstate) option" where
  "Traverse func NullNode s = Some (NullNode, s)"
| "Traverse func (Node l k v h d r) s = do {
     (l', s1) \<leftarrow> Traverse func l s;
     (d', s2) \<leftarrow> func k v d s1;
     (r', s3) \<leftarrow> Traverse func r s2;
     Some (Node l' k v h d' r', s3)
   }"

text \<open>
  MergePages, the page-at-a-time merge that only the buffered policy calls.
\<close>

definition MergePages :: "pstate \<Rightarrow> addr \<Rightarrow> (int \<times> pstate) option" where
  "MergePages s p =
     (if sharingProcessesInfo s = None then None
      else do {
        shared \<leftarrow> GetSharingBit s p;
        if shared then Some (0, s)
        else do {
          other \<leftarrow> IsOtherSharing s p;
          if \<not> other then do {
            (p0, s1) \<leftarrow> GetSharedPage s p False;
            if p0 = MAP_FAILED then None
            else do {
              let s2 = memcpy s1 p0 p (PAGE_SIZE s1);
              let (p0', s3) = sys_mremap s2 p0 (PAGE_SIZE s2) p;
              if p0' = MAP_FAILED then None
              else do {
                s4 \<leftarrow> SetSharingBit s3 p;
                Some (0, MakeReadOnlyWrapper s4 p (PAGE_SIZE s4))
              }
            }
          }
          else do {
            (p0, s1) \<leftarrow> GetSharedPage s p False;
            if p0 = MAP_FAILED then None
            else do {
              let (same, s2) = compare_pages s1 p0 p;
              if same then do {
                cnt \<leftarrow> CountSharingProcs s2 p;
                let s3 = (if cnt = 1
                          then s2\<lparr>sharedPageCount := sharedPageCount s2 + 1,
                                  allProcPrivatePageCount := allProcPrivatePageCount s2 - 1\<rparr>
                          else s2);
                let s4 = s3\<lparr>allProcPrivatePageCount := allProcPrivatePageCount s3 - 1\<rparr>;
                let (p0', s5) = sys_mremap s4 p0 (PAGE_SIZE s4) p;
                if p0' = MAP_FAILED then None
                else do {
                  s6 \<leftarrow> SetSharingBit s5 p;
                  Some (1, MakeReadOnlyWrapper s6 p0' (PAGE_SIZE s6))
                }
              }
              else Some (0, SH_UNMAP s2 p0 (PAGE_SIZE s2))
            }
          }
        }
      })"

section \<open>The layer: policy, fault handler and public interface\<close>

record state =
  isMPIInitialized :: bool
  isMPIFinalized :: bool
  notMPIApp :: "32 word"
  mergeMetric :: "32 word"
  mergeMinMemTh :: "32 word"
  mallocRefFreq :: "32 word"
  mallocRefCounter :: "64 word"
  countDownTimer :: "32 word"
  bufferOfDirtyPages :: "nat \<Rightarrow> addr"
  bufferPtr :: "32 word"
  allocRecord :: "AVLTreeData option"
  pg :: pstate
  siblings :: "nat \<Rightarrow> 32 word \<times> 32 word"
  races :: nat

definition MERGE_DISABLED :: "32 word" where "MERGE_DISABLED = 0"
definition ALLOC_FREQUENCY :: "32 word" where "ALLOC_FREQUENCY = 1"
definition THRESHOLD :: "32 word" where "THRESHOLD = 2"
definition BUFFERED :: "32 word" where "BUFFERED = 3"
definition BUFFER_LENGTH :: nat where "BUFFER_LENGTH = 10000"

definition CheckMPIInitialized :: "state \<Rightarrow> bool" where
  "CheckMPIInitialized s = (isMPIInitialized s \<or> notMPIApp s \<noteq> 0)"

subsection \<open>Wrappers around the index\<close>

text \<open>
  The dirty field of a node that Insert creates below an existing node is not written;
  the model takes its value from the next answer of the environment.
\<close>

definition AspaceAvlInsertWrapper :: "state \<Rightarrow> addr \<Rightarrow> 64 word \<Rightarrow> state" where
  "AspaceAvlInsertWrapper s start_addr len =
     (case allocRecord s of
        None \<Rightarrow> s
      | Some tree \<Rightarrow>
          s\<lparr>allocRecord := Some (snd (InsertAVL tree start_addr len
                                         (ucast (kernel (pg s) (tick (pg s)))))),
            pg := (pg s)\<lparr>tick := tick (pg s) + 1\<rparr>\<rparr>)"

definition AspaceAvlRemoveWrapper :: "state \<Rightarrow> addr \<Rightarrow> 64 word \<times> state" where
  "AspaceAvlRemoveWrapper s start_addr =
     (case allocRecord s of
        None \<Rightarrow> (0, s)
      | Some tree \<Rightarrow>
          (case RemoveAVL tree start_addr of
             (res, tree') \<Rightarrow> (res, s\<lparr>allocRecord := Some tree'\<rparr>)))"

definition AspaceAvlSearchWrapper :: "state \<Rightarrow> addr \<Rightarrow> 64 word" where
  "AspaceAvlSearchWrapper s start_addr =
     (case allocRecord s of None \<Rightarrow> 0 | Some tree \<Rightarrow> FindAVL tree start_addr)"

definition AspaceAvlSearchRangeWrapper :: "state \<Rightarrow> addr \<Rightarrow> AVLTreeNode" where
  "AspaceAvlSearchRangeWrapper s start_addr =
     (case allocRecord s of None \<Rightarrow> NullNode | Some tree \<Rightarrow> FindRangeAVL tree start_addr)"

text \<open>
  The fault handler writes \<open>n->dirty = 1\<close> through the pointer that the range search
  returned.  MarkDirty is that search and that write in one pass over the tree.
\<close>

fun MarkDirty :: "AVLTreeNode \<Rightarrow> addr \<Rightarrow> AVLTreeNode" where
  "MarkDirty NullNode k = NullNode"
| "MarkDirty (Node l nk nv h d r) k =
     (let rc = MyComparator k nk in
      if rc < 0 then Node (MarkDirty l k) nk nv h d r
      else if rc > 0 then
        (if nk + nv > k then Node l nk nv h 1 r else Node l nk nv h d (MarkDirty r k))
      else Node l nk nv h 1 r)"

subsection \<open>Merge policies\<close>

definition TraverseAVL :: "state \<Rightarrow> state option" where
  "TraverseAVL s =
     (case allocRecord s of
        None \<Rightarrow> None
      | Some tree \<Rightarrow> do {
          (node, p) \<leftarrow> Traverse MergeNode2 (root tree) (pg s);
          Some (s\<lparr>allocRecord := Some (tree\<lparr>root := node\<rparr>), pg := p\<rparr>)
        })"

definition MergeByALLOC_FREQUENCY :: "state \<Rightarrow> state option" where
  "MergeByALLOC_FREQUENCY s =
     (let s1 = s\<lparr>mallocRefCounter := mallocRefCounter s + 1\<rparr> in
      if mallocRefFreq s1 = 0 then None
      else if mallocRefCounter s1 mod scast (mallocRefFreq s1) = 0 then do {
        s2 \<leftarrow> TraverseAVL s1;
        Some (s2\<lparr>mallocRefCounter := 0\<rparr>)
      }
      else Some s1)"

text \<open>
  The counters of the shared arena are written by every sibling on the node.
  MergeByTHRESHOLD reads \<open>*allProcPrivatePageCount\<close> and \<open>*sharedPageCount\<close> twice
  without holding the semaphore: once for the test and once more for the assignment to
  \<open>mergeMinMemTh\<close>.  \<open>siblings\<close> is the schedule of what the siblings add to
  \<open>(sharedPageCount, allProcPrivatePageCount)\<close> between these two reads, one pair for
  each test that passes, and \<open>races\<close> counts the pairs consumed; the pair \<open>(0, 0)\<close> is
  a moment at which no sibling writes.
\<close>

definition sibling_writes :: "state \<Rightarrow> state" where
  "sibling_writes s =
     (case siblings s (races s) of
        (sh, pr) \<Rightarrow>
          s\<lparr>pg := (pg s)\<lparr>sharedPageCount := sharedPageCount (pg s) + sh,
                         allProcPrivatePageCount := allProcPrivatePageCount (pg s) + pr\<rparr>,
            races := races s + 1\<rparr>)"

definition MergeByTHRESHOLD :: "state \<Rightarrow> state option" where
  "MergeByTHRESHOLD s =
     (let s1 = s\<lparr>countDownTimer := countDownTimer s - 1\<rparr> in
      if countDownTimer s1 = 0 then
        (let s2 = s1\<lparr>countDownTimer := 100\<rparr>
         in if mergeMinMemTh s2 \<le>s allProcPrivatePageCount (pg s2) + sharedPageCount (pg s2) then
              (let s3 = sibling_writes s2
               in TraverseAVL
                    (s3\<lparr>mergeMinMemTh := allProcPrivatePageCount (pg s3) + sharedPageCount (pg s3)\<rparr>))
            else Some s2)
      else Some s1)"

fun MergeByBUFFERED_pages :: "pstate \<Rightarrow> addr list \<Rightarrow> pstate option" where
  "MergeByBUFFERED_pages s [] = Some s"
| "MergeByBUFFERED_pages s (t # ts) =
     (if IsCloseToMmapLimit s then Some s
      else do {
        off \<leftarrow> TranslateMmapAddr s t;
        if off = 0 then MergeByBUFFERED_pages s ts
        else do {
          initialized \<leftarrow> GetBit s (initializedPagesBV s) t;
          s1 \<leftarrow> (if initialized then map_option snd (MergePages s t) else Some s);
          MergeByBUFFERED_pages s1 ts
        }
      })"

definition MergeByBUFFERED :: "state \<Rightarrow> state option" where
  "MergeByBUFFERED s = do {
     p \<leftarrow> MergeByBUFFERED_pages (pg s) (map (bufferOfDirtyPages s) [0 ..< BUFFER_LENGTH]);
     Some (s\<lparr>pg := p, bufferPtr := 0\<rparr>)
   }"

subsection \<open>The write-fault handler\<close>

definition SigSegvHandler :: "state \<Rightarrow> addr \<Rightarrow> bool \<Rightarrow> state option" where
  "SigSegvHandler s si_addr writefault =
     (if PAGE_SIZE (pg s) = 0 then None
      else
        (let faultaddr = (si_addr div PAGE_SIZE (pg s)) * PAGE_SIZE (pg s) in
         if \<not> writefault then None
         else do {
           s \<leftarrow>
             (if mergeMetric s = BUFFERED then do {
                s \<leftarrow> (if bufferPtr s = of_nat BUFFER_LENGTH then MergeByBUFFERED s else Some s);
                Some (s\<lparr>bufferOfDirtyPages := (bufferOfDirtyPages s) (nat (sint (bufferPtr s)) := faultaddr),
                        bufferPtr := bufferPtr s + 1\<rparr>)
              }
              else if mergeMetric s \<noteq> MERGE_DISABLED then
                Some (case allocRecord s of
                        None \<Rightarrow> s
                      | Some tree \<Rightarrow> s\<lparr>allocRecord := Some (tree\<lparr>root := MarkDirty (root tree) faultaddr\<rparr>)\<rparr>)
              else Some s);
           (is_initialized_page, bv) \<leftarrow> SetAndReturnBit (pg s) (initializedPagesBV (pg s)) faultaddr;
           let p = (pg s)\<lparr>initializedPagesBV := bv\<rparr>;
           p \<leftarrow>
             (if \<not> is_initialized_page then
                Some (MakeReadWriteWrapper
                        (p\<lparr>allProcPrivatePageCount := allProcPrivatePageCount p + 1,
                           baseCaseTotalPageCount := baseCaseTotalPageCount p + 1\<rparr>)
                        faultaddr (PAGE_SIZE p))
              else do {
                (is_zero_page, zbv) \<leftarrow> ResetAndReturnBit p (zeroPagesBV p) faultaddr;
                let p = p\<lparr>zeroPagesBV := zbv\<rparr>;
                is_shared_page \<leftarrow> GetSharingBit p faultaddr;
                p \<leftarrow>
                  (if is_zero_page then
                     Some (p\<lparr>allProcPrivatePageCount := allProcPrivatePageCount p + 1,
                             zeroPageCount := zeroPageCount p - 1\<rparr>)
                   else if is_shared_page then do {
                     p \<leftarrow> UnsetSharingBit p faultaddr;
                     sh_cnt \<leftarrow> CountSharingProcs p faultaddr;
                     if sh_cnt = 1 then
                       Some (p\<lparr>sharedPageCount := sharedPageCount p - 1,
                               allProcPrivatePageCount := allProcPrivatePageCount p + 2\<rparr>)
                     else if sh_cnt = 0 then Some p
                     else if int sh_cnt \<le> sint (aliveProcs p) then
                       Some (p\<lparr>allProcPrivatePageCount := allProcPrivatePageCount p + 1\<rparr>)
                     else None
                   }
                   else Some p);
                if is_zero_page then
                  (case SH_MMAP p faultaddr (PAGE_SIZE p) PROT_READ_WRITE True None of
                     (q, p) \<Rightarrow> if q = MAP_FAILED then None else Some p)
                else if is_shared_page then
                  (case SH_MMAP p 0 (PAGE_SIZE p) PROT_READ_WRITE False None of
                     (q, p) \<Rightarrow>
                       if q = MAP_FAILED then None
                       else
                         (case sys_mremap (memcpy p q faultaddr (PAGE_SIZE p)) q (PAGE_SIZE p) faultaddr of
                            (q', p) \<Rightarrow> if q' = MAP_FAILED then None else Some p))
                else Some p
              });
           let s = s\<lparr>pg := p\<rparr>;
           if mergeMetric s = THRESHOLD then MergeByTHRESHOLD s else Some s
         }))"

subsection \<open>The public interface\<close>

definition ShmMallocWrapper :: "state \<Rightarrow> 64 word \<Rightarrow> (addr \<times> state) option" where
  "ShmMallocWrapper s sz =
     (if \<not> CheckMPIInitialized s then Some (0, s)
      else if isMPIFinalized s then Some (0, s)
      else if IsCloseToMmapLimit (pg s) then Some (0, s)
      else if PAGE_SIZE (pg s) = 0 then None
      else do {
        let len = ((sz + PAGE_SIZE (pg s) - 1) div PAGE_SIZE (pg s)) * PAGE_SIZE (pg s);
        s1 \<leftarrow> (if mergeMetric s = ALLOC_FREQUENCY then MergeByALLOC_FREQUENCY s else Some s);
        let (ptr, p) = SH_MMAP (pg s1) 0 len PROT_READ False None;
        if ptr = MAP_FAILED then Some (0, s1\<lparr>pg := p\<rparr>)
        else Some (ptr, AspaceAvlInsertWrapper (s1\<lparr>pg := p\<rparr>) ptr len)
      })"

definition ShmGetSizeWrapper :: "state \<Rightarrow> addr \<Rightarrow> 64 word" where
  "ShmGetSizeWrapper s ptr =
     (if \<not> CheckMPIInitialized s then 0 else AspaceAvlSearchWrapper s ptr)"

text \<open>
  The loops of ShmFreeWrapper count with \<open>int i\<close>.  The last \<open>i += PAGE_SIZE\<close> leaves
  \<open>i\<close> at the region size rounded up to pages; beyond \<open>INT_MAX\<close> that addition is
  undefined and the model gives no result.
\<close>

definition int_page_offsets :: "pstate \<Rightarrow> 64 word \<Rightarrow> 64 word list option" where
  "int_page_offsets s len = do {
     offs \<leftarrow> page_offsets s len;
     if length offs * unat (PAGE_SIZE s) > 2147483647 then None else Some offs
   }"

fun ShmFreeWrapper_pages :: "pstate \<Rightarrow> bool \<Rightarrow> addr \<Rightarrow> 64 word list \<Rightarrow> pstate option" where
  "ShmFreeWrapper_pages s last_page_shared ptr [] = Some s"
| "ShmFreeWrapper_pages s last_page_shared ptr (i # rest) = do {
     let p = ptr + i;
     (is_initialized_page, bv) \<leftarrow> ResetAndReturnBit s (initializedPagesBV s) p;
     let s = s\<lparr>initializedPagesBV := bv\<rparr>;
     if is_initialized_page then do {
       (is_zero_page, zbv) \<leftarrow> ResetAndReturnBit s (zeroPagesBV s) p;
       let s = s\<lparr>zeroPagesBV := zbv\<rparr>;
       is_shared_page \<leftarrow> GetSharingBit s p;
       let s = s\<lparr>baseCaseTotalPageCount := baseCaseTotalPageCount s - 1\<rparr>;
       let s = (if last_page_shared \<and> \<not> is_shared_page then s\<lparr>mmapCount := mmapCount s - 1\<rparr> else s);
       if is_zero_page then
         ShmFreeWrapper_pages (s\<lparr>zeroPageCount := zeroPageCount s - 1, mmapCount := mmapCount s - 1\<rparr>)
           False ptr rest
       else if is_shared_page then do {
         sh_cnt \<leftarrow> CountSharingProcs s p;
         let s = (if sh_cnt = 1 then s\<lparr>allProcPrivatePageCount := allProcPrivatePageCount s - 1\<rparr>
                  else if sh_cnt = 2
                  then s\<lparr>sharedPageCount := sharedPageCount s - 1,
                         allProcPrivatePageCount := allProcPrivatePageCount s + 1\<rparr>
                  else s);
         s \<leftarrow> UnsetSharingBit s p;
         ShmFreeWrapper_pages s True ptr rest
       }
       else ShmFreeWrapper_pages (s\<lparr>allProcPrivatePageCount := allProcPrivatePageCount s - 1\<rparr>)
              False ptr rest
     }
     else if last_page_shared then
       ShmFreeWrapper_pages (s\<lparr>mmapCount := mmapCount s - 1\<rparr>) False ptr rest
     else ShmFreeWrapper_pages s last_page_shared ptr rest
   }"

fun ShmFreeWrapper_pages_disabled :: "pstate \<Rightarrow> addr \<Rightarrow> 64 word list \<Rightarrow> pstate option" where
  "ShmFreeWrapper_pages_disabled s ptr [] = Some s"
| "ShmFreeWrapper_pages_disabled s ptr (i # rest) = do {
     (is_initialized_page, bv) \<leftarrow> ResetAndReturnBit s (initializedPagesBV s) (ptr + i);
     let s = s\<lparr>initializedPagesBV := bv\<rparr>;
     ShmFreeWrapper_pages_disabled
       (if is_initialized_page
        then s\<lparr>baseCaseTotalPageCount := baseCaseTotalPageCount s - 1,
               allProcPrivatePageCount := allProcPrivatePageCount s - 1\<rparr>
        else s)
       ptr rest
   }"

definition ShmFreeWrapper :: "state \<Rightarrow> addr \<Rightarrow> (int \<times> state) option" where
  "ShmFreeWrapper s ptr =
     (if \<not> CheckMPIInitialized s then Some (- 1, s)
      else
        (case AspaceAvlRemoveWrapper s ptr of
           (len, s1) \<Rightarrow>
             if sint len \<le> 0 then Some (- 1, s1)
             else do {
               let p = SH_UNMAP (pg s1) ptr len;
               offs \<leftarrow> int_page_offsets p len;
               p \<leftarrow> (if mergeMetric s1 \<noteq> MERGE_DISABLED
                      then ShmFreeWrapper_pages p False ptr offs
                      else ShmFreeWrapper_pages_disabled p ptr offs);
               Some (1, s1\<lparr>pg := p\<rparr>)
             }))"

text \<open>
  A store by the application to a page that is not writable raises \<open>SIGSEGV\<close>, which
  the kernel hands to SigSegvHandler: with \<open>SEGV_ACCERR\<close> when the page is mapped
  (\<open>writefault\<close> is then true), with \<open>SEGV_MAPERR\<close> when it is not.  When the handler
  returns the store is repeated, and faults again if the page is still not writable;
  a store that faults without end never completes and has no result.
\<close>

definition writable :: "vpage \<Rightarrow> bool" where
  "writable m = (case m of Anon pr \<Rightarrow> pr = PROT_READ_WRITE | File off pr \<Rightarrow> pr = PROT_READ_WRITE)"

partial_function (option) write_fault :: "state \<Rightarrow> addr \<Rightarrow> state option" where
  "write_fault s a =
     (case vmap (pg s) a of
        None \<Rightarrow> do { s1 \<leftarrow> SigSegvHandler s a False; write_fault s1 a }
      | Some m \<Rightarrow>
          if writable m then Some s
          else do { s1 \<leftarrow> SigSegvHandler s a True; write_fault s1 a })"

declare write_fault.simps [code]

text \<open>
  ShmReallocWrapper copies with libc's \<open>memcpy\<close>.  The destination that
  ShmMallocWrapper hands out is mapped read-only, so the copy stores to pages that
  fault; the model takes the pages of the destination in ascending order.
\<close>

fun write_fault_pages :: "state \<Rightarrow> addr \<Rightarrow> 64 word list \<Rightarrow> state option" where
  "write_fault_pages s first [] = Some s"
| "write_fault_pages s first (off # offs) = do {
     s1 \<leftarrow> write_fault s (first + off);
     write_fault_pages s1 first offs
   }"

definition app_memcpy :: "state \<Rightarrow> addr \<Rightarrow> addr \<Rightarrow> 64 word \<Rightarrow> state option" where
  "app_memcpy s dst src n =
     (if PAGE_SIZE (pg s) = 0 \<or> sint n < 0 then None
      else do {
        let first = (dst div PAGE_SIZE (pg s)) * PAGE_SIZE (pg s);
        offs \<leftarrow> page_offsets (pg s) ((dst - first) + n);
        s1 \<leftarrow> write_fault_pages s first offs;
        Some (s1\<lparr>pg := memcpy (pg s1) dst src n\<rparr>)
      })"

text \<open>
  \<open>ptmalloc\<close>, the small-object allocator: its answer comes from the environment, and
  the block it hands out is ordinary writable memory of the process.
\<close>

definition ptmalloc :: "state \<Rightarrow> 64 word \<Rightarrow> addr \<times> state" where
  "ptmalloc s n =
     (let a = kernel (pg s) (tick (pg s));
          p = (pg s)\<lparr>tick := tick (pg s) + 1\<rparr>
      in (a, s\<lparr>pg := (if a = 0 then p
                        else p\<lparr>vmap := (\<lambda>x. if in_range a n x then Some (Anon PROT_READ_WRITE)
                                             else vmap p x)\<rparr>)\<rparr>))"

definition ShmReallocWrapper :: "state \<Rightarrow> addr \<Rightarrow> 64 word \<Rightarrow> (addr \<times> state) option" where
  "ShmReallocWrapper s ptr len =
     (if \<not> CheckMPIInitialized s then Some (0, s)
      else
        (let old_size = AspaceAvlSearchWrapper s ptr in
         if old_size \<le> 0 then Some (0, s)
         else if old_size \<ge> len then Some (ptr, s)
         else do {
           (new_ptr, s1) \<leftarrow> ShmMallocWrapper s len;
           let (new_ptr, s2) = (if new_ptr = 0 then ptmalloc s1 len else (new_ptr, s1));
           if new_ptr = 0 then Some (ptr, s2)
           else do {
             let sz = (ucast (if old_size < len then old_size else len) :: 32 word);
             s3 \<leftarrow> app_memcpy s2 new_ptr ptr (scast sz);
             (r, s4) \<leftarrow> ShmFreeWrapper s3 ptr;
             Some (new_ptr, s4)
           }
         }))"

subsection \<open>Start-up and joining the node\<close>

text \<open>
  The static initialisers of SharedHeap.cpp, with siblings that do not write during the
  threshold tests.
\<close>

definition startup_pstate :: "(nat \<Rightarrow> 64 word) \<Rightarrow> pstate" where
  "startup_pstate k =
     \<lparr>PAGE_SIZE = 4096, log2PAGE_SIZE = 12,
      sharedHeapBottom = 0x7fff40000000, sharedHeapTop = 0x7fffffffffff,
      numProc = 0, myRank = - 1, currProcMask = 1, currProcMaskInverted = - 1,
      sharingProcessesInfo = None,
      aliveProcs = 0, sharedPageCount = 0, allProcPrivatePageCount = 0,
      baseCaseTotalPageCount = 0,
      initializedPagesBV = (\<lambda>_. 0), zeroPagesBV = (\<lambda>_. 0),
      zeroPageCount = 0, mmapCount = 0,
      vmap = (\<lambda>_. None), kernel = k, tick = 0, copies = []\<rparr>"

definition startup :: "(nat \<Rightarrow> 64 word) \<Rightarrow> state" where
  "startup k =
     \<lparr>isMPIInitialized = False, isMPIFinalized = False, notMPIApp = 0,
      mergeMetric = THRESHOLD, mergeMinMemTh = 10000, mallocRefFreq = 1000,
      mallocRefCounter = 0, countDownTimer = 100,
      bufferOfDirtyPages = (\<lambda>_. 0), bufferPtr = 0,
      allocRecord = None, pg = startup_pstate k,
      siblings = (\<lambda>_. (0, 0)), races = 0\<rparr>"

text \<open>
  What the host answers during initialisation: the page size and the number of online
  processors of \<open>sysconf\<close>, the environment variables (\<open>None\<close> when unset, else the
  value of \<open>atoi\<close>), whether \<open>shm_open\<close> created the backing file, found it or
  failed, and the holder bitmap and counters that the file holds when it was found.
\<close>

datatype shm_open_result = Created | Existing | OpenFailed

record host =
  h_page_size :: "32 word"
  h_cores :: "32 word"
  h_MERGE_METRIC :: "32 word option"
  h_MIN_MEM_TH :: "32 word option"
  h_MALLOC_MERGE_FREQ :: "32 word option"
  h_NOT_MPI_APP :: "32 word option"
  h_shm_open :: shm_open_result
  h_info :: "nat \<Rightarrow> 16 word"
  h_aliveProcs :: "32 word"
  h_sharedPageCount :: "32 word"
  h_allProcPrivatePageCount :: "32 word"
  h_baseCaseTotalPageCount :: "32 word"

definition FloorLog2 :: "64 word \<Rightarrow> int" where
  "FloorLog2 n =
     (if n = 0 then - 1
      else
        (let p = 0;
             (p, n) = (if n AND 0xffff0000 \<noteq> 0 then (p + 16, drop_bit 16 n) else (p, n));
             (p, n) = (if n AND 0x0000ff00 \<noteq> 0 then (p + 8, drop_bit 8 n) else (p, n));
             (p, n) = (if n AND 0x000000f0 \<noteq> 0 then (p + 4, drop_bit 4 n) else (p, n));
             (p, n) = (if n AND 0x0000000c \<noteq> 0 then (p + 2, drop_bit 2 n) else (p, n));
             p = (if n AND 0x00000002 \<noteq> 0 then p + 1 else p)
         in p))"

definition CeilLog2 :: "64 word \<Rightarrow> int" where
  "CeilLog2 n = FloorLog2 (n - 1) + 1"

definition Init_Heap_Boundary :: "pstate \<Rightarrow> pstate" where
  "Init_Heap_Boundary s =
     (case SH_MMAP s 0 (PAGE_SIZE s) PROT_READ False None of
        (ptr1, s1) \<Rightarrow>
          (case SH_MMAP s1 0 (PAGE_SIZE s1) PROT_READ False None of
             (ptr2, s2) \<Rightarrow>
               (let s3 = (if ptr1 > ptr2
                          then s2\<lparr>sharedHeapTop := ptr1 + PAGE_SIZE s2,
                                 sharedHeapBottom := ptr1 + PAGE_SIZE s2 - 0xc0000000\<rparr>
                          else s2\<lparr>sharedHeapBottom := ptr1,
                                 sharedHeapTop := ptr1 + 0xc0000000\<rparr>)
                in SH_UNMAP (SH_UNMAP s3 ptr1 (PAGE_SIZE s3)) ptr2 (PAGE_SIZE s3))))"

definition getenv_or :: "32 word option \<Rightarrow> 32 word \<Rightarrow> 32 word" where
  "getenv_or v default_val = (case v of None \<Rightarrow> default_val | Some x \<Rightarrow> x)"

text \<open>
  InitEnv followed by CheckEnv.  The page size is positive and at most \<open>2^20\<close> when
  CheckEnv runs, so its signed division is the unsigned one.
\<close>

definition InitEnv :: "state \<Rightarrow> host \<Rightarrow> state option" where
  "InitEnv s h =
     (let s1 = s\<lparr>mergeMetric := getenv_or (h_MERGE_METRIC h) 1,
                mergeMinMemTh := getenv_or (h_MIN_MEM_TH h) 10,
                mallocRefFreq := getenv_or (h_MALLOC_MERGE_FREQ h) 1000,
                notMPIApp := getenv_or (h_NOT_MPI_APP h) 0\<rparr>
      in if \<not> (mergeMetric s1 <s 4) then None
         else if \<not> (0 <s mergeMinMemTh s1 \<and> mergeMinMemTh s1 <s 100000) then None
         else if \<not> (0 <s mallocRefFreq s1) then None
         else Some (s1\<lparr>mergeMinMemTh := mergeMinMemTh s1 * (1000000 div ucast (PAGE_SIZE (pg s1)))\<rparr>))"

text \<open>
  AllocateSharedMetadata: the first sibling on the node initialises the arena, every
  other one adds itself to \<open>aliveProcs\<close>; the count after joining, less one, is the
  sibling's rank and the position of its bit in every holder entry.  The mask is
  \<open>(0x01) << myRank\<close>, a shift of an \<open>int\<close> that is converted to \<open>unsigned long\<close>:
  it is undefined for a negative rank and for a rank of 32 or more, where the model
  gives no result.
\<close>

definition AllocateSharedMetadata :: "pstate \<Rightarrow> host \<Rightarrow> pstate option" where
  "AllocateSharedMetadata s h =
     (if h_shm_open h = OpenFailed then None
      else
        (let init_shared = (h_shm_open h = Created) in
         case SH_MMAP s 0 (PAGE_SIZE s) (if init_shared then PROT_READ_WRITE else PROT_READ) False (Some 0) of
           (zeroPage, s1) \<Rightarrow>
             if zeroPage = MAP_FAILED then None
             else
               (let s1 = (if init_shared then MakeReadOnlyWrapper s1 zeroPage (PAGE_SIZE s1) else s1) in
                case SH_MMAP s1 0 (push_bit 20 3) PROT_READ_WRITE False (Some (push_bit 30 3)) of
                  (info, s2) \<Rightarrow>
                    if info = MAP_FAILED then None
                    else
                      (case SH_MMAP s2 0 (PAGE_SIZE s2) PROT_READ_WRITE False
                              (Some (push_bit 30 3 OR push_bit 20 3)) of
                         (alive, s3) \<Rightarrow>
                           if alive = MAP_FAILED then None
                           else
                             (let s4 = (if init_shared
                                        then s3\<lparr>sharingProcessesInfo := Some (\<lambda>_. 0),
                                               aliveProcs := 1,
                                               sharedPageCount := 1,
                                               allProcPrivatePageCount := 192,
                                               baseCaseTotalPageCount := 0\<rparr>
                                        else s3\<lparr>sharingProcessesInfo := Some (h_info h),
                                               aliveProcs := h_aliveProcs h + 1,
                                               sharedPageCount := h_sharedPageCount h,
                                               allProcPrivatePageCount := h_allProcPrivatePageCount h,
                                               baseCaseTotalPageCount := h_baseCaseTotalPageCount h\<rparr>);
                                  rank = aliveProcs s4 - 1;
                                  mask = (scast (push_bit (nat (sint rank)) (1 :: 32 word)) :: 64 word)
                              in if 0 \<le>s rank \<and> rank <s 32
                                 then Some (s4\<lparr>myRank := rank, currProcMask := mask,
                                              currProcMaskInverted := NOT mask\<rparr>)
                                 else None)))))"

definition InitAddrSpace :: "state \<Rightarrow> host \<Rightarrow> state option" where
  "InitAddrSpace s h =
     (if \<not> (0 <s h_page_size h \<and> h_page_size h \<le>s push_bit 20 1) then None
      else do {
        let p = (pg s)\<lparr>PAGE_SIZE := scast (h_page_size h),
                        log2PAGE_SIZE := nat (CeilLog2 (scast (h_page_size h)))\<rparr>;
        s1 \<leftarrow> InitEnv (s\<lparr>pg := p\<rparr>) h;
        let s2 = s1\<lparr>allocRecord := Some CreateAVL\<rparr>;
        n \<leftarrow> (if h_cores h \<le>s 8 then Some 8 else if h_cores h \<le>s 16 then Some 16 else None);
        p1 \<leftarrow> AllocateSharedMetadata ((pg s2)\<lparr>numProc := n\<rparr>) h;
        Some (s2\<lparr>pg := p1\<lparr>initializedPagesBV := (\<lambda>_. 0), zeroPagesBV := (\<lambda>_. 0)\<rparr>\<rparr>)
      })"

text \<open>The layer's \<open>MPI_Init\<close> and \<open>MPI_Finalize\<close>, as far as they touch the state.\<close>

definition MPI_Init :: "state \<Rightarrow> host \<Rightarrow> state option" where
  "MPI_Init s h = do {
     s1 \<leftarrow> InitAddrSpace (s\<lparr>pg := Init_Heap_Boundary (pg s)\<rparr>) h;
     Some (s1\<lparr>isMPIInitialized := True\<rparr>)
   }"

definition MPI_Finalize :: "state \<Rightarrow> state" where
  "MPI_Finalize s = s\<lparr>isMPIFinalized := True\<rparr>"

section \<open>Predicates of the specification\<close>

text \<open>
  The regions recorded in a tree, in order; the true height of a subtree; the AVL
  invariant on stored heights and balance; and what makes a tree an allocation index:
  the bases ascend, every region is non-empty and ends below \<open>2^63\<close> (user-space
  addresses, on which MyComparator is the unsigned order).
\<close>

fun entries :: "AVLTreeNode \<Rightarrow> (addr \<times> 64 word) list" where
  "entries NullNode = []"
| "entries (Node l k v h d r) = entries l @ (k, v) # entries r"

fun true_height :: "AVLTreeNode \<Rightarrow> int" where
  "true_height NullNode = 0"
| "true_height (Node l k v h d r) = max (true_height l) (true_height r) + 1"

fun avl_inv :: "AVLTreeNode \<Rightarrow> bool" where
  "avl_inv NullNode = True"
| "avl_inv (Node l k v h d r) =
     (h = true_height (Node l k v h d r) \<and> \<bar>true_height l - true_height r\<bar> \<le> 1
      \<and> avl_inv l \<and> avl_inv r)"

definition region_ok :: "addr \<times> 64 word \<Rightarrow> bool" where
  "region_ok r = (0 < snd r \<and> unat (fst r) + unat (snd r) < 2 ^ 63)"

definition covers :: "addr \<times> 64 word \<Rightarrow> addr \<Rightarrow> bool" where
  "covers r a = (fst r \<le> a \<and> a < fst r + snd r)"

definition disjoint :: "addr \<times> 64 word \<Rightarrow> addr \<times> 64 word \<Rightarrow> bool" where
  "disjoint r1 r2 = (fst r1 + snd r1 \<le> fst r2 \<or> fst r2 + snd r2 \<le> fst r1)"

definition pairwise_disjoint :: "(addr \<times> 64 word) list \<Rightarrow> bool" where
  "pairwise_disjoint es = list_all (\<lambda>r1. list_all (\<lambda>r2. r1 = r2 \<or> disjoint r1 r2) es) es"

definition index_ok :: "AVLTreeNode \<Rightarrow> bool" where
  "index_ok t = (sorted_wrt (<) (map fst (entries t)) \<and> list_all region_ok (entries t))"

text \<open>Sequences of insertions and removals, for stating what a run of them leaves.\<close>

definition insert_all :: "AVLTreeData \<Rightarrow> addr list \<Rightarrow> AVLTreeData" where
  "insert_all t ks = foldl (\<lambda>t k. snd (InsertAVL t k 4096 0)) t ks"

definition remove_all :: "AVLTreeData \<Rightarrow> addr list \<Rightarrow> AVLTreeData" where
  "remove_all t ks = foldl (\<lambda>t k. snd (RemoveAVL t k)) t ks"

definition six_regions :: AVLTreeData where
  "six_regions = insert_all CreateAVL [0x14000, 0xa000, 0x28000, 0x1e000, 0x32000, 0x19000]"

text \<open>An environment that gives the listed answers, then refuses.\<close>

definition answers :: "64 word list \<Rightarrow> nat \<Rightarrow> 64 word" where
  "answers xs n = (if n < length xs then xs ! n else MAP_FAILED)"

section \<open>Runs of the layer\<close>

text \<open>
  What happens to the layer from outside: the four public calls, an application store
  to an address (which faults when the page is read-only), and a change of the shared
  counters by another sibling.  A run carries out a list of them in order.
\<close>

datatype request =
    Alloc "64 word"
  | Realloc addr "64 word"
  | Free addr
  | SizeOf addr
  | Store addr
  | Sibling "32 word" "32 word"

definition app_store :: "state \<Rightarrow> addr \<Rightarrow> state option" where
  "app_store s a =
     (if PAGE_SIZE (pg s) = 0 then None
      else write_fault s ((a div PAGE_SIZE (pg s)) * PAGE_SIZE (pg s)))"

fun exec :: "state \<Rightarrow> request \<Rightarrow> state option" where
  "exec s (Alloc n) = map_option snd (ShmMallocWrapper s n)"
| "exec s (Realloc p n) = map_option snd (ShmReallocWrapper s p n)"
| "exec s (Free p) = map_option snd (ShmFreeWrapper s p)"
| "exec s (SizeOf p) = Some s"
| "exec s (Store a) = app_store s a"
| "exec s (Sibling sh pr) =
     Some (s\<lparr>pg := (pg s)\<lparr>sharedPageCount := sh, allProcPrivatePageCount := pr\<rparr>\<rparr>)"

fun run :: "state \<Rightarrow> request list \<Rightarrow> state option" where
  "run s [] = Some s"
| "run s (r # rs) = do { s1 \<leftarrow> exec s r; run s1 rs }"

text \<open>
  A first sibling on a node with eight cores, 4 KiB pages and the threshold policy
  selected, and the state its \<open>MPI_Init\<close> leaves.  The kernel answers the two probes
  of the heap boundary and the three mappings of the shared file, and has two more
  addresses to give.
\<close>

definition host0 :: host where
  "host0 = \<lparr>h_page_size = 4096, h_cores = 8, h_MERGE_METRIC = Some 2, h_MIN_MEM_TH = None,
     h_MALLOC_MERGE_FREQ = None, h_NOT_MPI_APP = None, h_shm_open = Created, h_info = (\<lambda>_. 0),
     h_aliveProcs = 0, h_sharedPageCount = 0, h_allProcPrivatePageCount = 0, h_baseCaseTotalPageCount = 0\<rparr>"

definition k0 :: "nat \<Rightarrow> 64 word" where
  "k0 = answers [0x7ffff7ff8000, 0x7ffff7ff7000, 0x7ffff7ff6000, 0x7ffff7c00000, 0x7ffff7bff000,
   0x7ffff7a00000, 0]"

definition ready :: state where
  "ready = the (MPI_Init (startup k0) host0)"

text \<open>
  The same node when eight siblings have joined before: the backing file exists and its
  \<open>aliveProcs\<close> is 8.
\<close>

definition host9 :: host where
  "host9 = host0\<lparr>h_shm_open := Existing, h_aliveProcs := 8, h_sharedPageCount := 1,
                   h_allProcPrivatePageCount := 192\<rparr>"

text \<open>
  A page address that the bitmaps can translate: strictly inside the heap window, with
  a holder bitmap of 8 or 16 bits.  A region lies in the heap when the page size is
  not zero and all of its pages are such addresses; its size fits the \<open>int\<close> that
  ShmFreeWrapper counts with when the size rounded up to whole pages is at most
  \<open>INT_MAX\<close>.
\<close>

definition in_heap :: "pstate \<Rightarrow> addr \<Rightarrow> 64 word \<Rightarrow> bool" where
  "in_heap p a len =
     (PAGE_SIZE p \<noteq> 0 \<and> (numProc p = 8 \<or> numProc p = 16) \<and> sharedHeapBottom p < a
      \<and> unat a + unat len \<le> unat (sharedHeapTop p))"

definition fits_int :: "pstate \<Rightarrow> 64 word \<Rightarrow> bool" where
  "fits_int p len =
     (((unat len + unat (PAGE_SIZE p) - 1) div unat (PAGE_SIZE p)) * unat (PAGE_SIZE p)
        \<le> 2147483647)"

definition page_ok :: "pstate \<Rightarrow> addr \<Rightarrow> bool" where
  "page_ok p a = ((numProc p = 8 \<or> numProc p = 16) \<and> sharedHeapBottom p < a \<and> a < sharedHeapTop p)"

text \<open>The state after initialisation and one allocation of two pages.\<close>

definition one_region :: state where
  "one_region = snd (the (ShmMallocWrapper ready 8192))"

text \<open>
  The same initialisation with any later answers of the kernel, and a run in which the
  threshold moves: the countdown stands at 1, a sibling has brought the private count
  to 3000, and the application allocates a page and stores to it.  The store faults
  twice: the first run of the handler merges the page onto the zero frame, the second
  makes it private again.
\<close>

definition boot :: "64 word list \<Rightarrow> state" where
  "boot later = the (MPI_Init (startup (answers ([0x7ffff7ff8000, 0x7ffff7ff7000, 0x7ffff7ff6000,
       0x7ffff7c00000, 0x7ffff7bff000] @ later))) host0)"





text \<open>
  A merge pass that the kernel cuts short: the application allocates two pages and
  stores to both, which leaves them private, writable and all zero; the pass finds both
  equal to the zero page, and of the two mappings onto the zero frame that RemapToZero
  asks for the kernel grants the first and refuses the second.
\<close>

definition cold :: state where
  "cold = boot [0x7ffff7a00000, 0, 0x7ffff7400000, 0, 0, 0x7ffff7a00000]"

definition cold1 :: state where
  "cold1 = the (run cold [Alloc 8192, Store 0x7ffff7a00000, Store 0x7ffff7a01000])"

definition cold2 :: state where
  "cold2 = the (TraverseAVL cold1)"

text \<open>
  The heap window of a process, a tree without a dirty region, and a tree all of whose
  bases lie strictly inside the window (where TranslateMmapAddr does not abort).
\<close>

definition window :: "pstate \<Rightarrow> addr \<times> addr" where
  "window p = (sharedHeapBottom p, sharedHeapTop p)"

fun clean :: "AVLTreeNode \<Rightarrow> bool" where
  "clean NullNode = True"
| "clean (Node l k v h d r) = (clean l \<and> d = 0 \<and> clean r)"

fun keys_in :: "pstate \<Rightarrow> AVLTreeNode \<Rightarrow> bool" where
  "keys_in p NullNode = True"
| "keys_in p (Node l k v h d r) =
     (keys_in p l \<and> sharedHeapBottom p < k \<and> k < sharedHeapTop p \<and> keys_in p r)"


section \<open>The comparator on user-space addresses\<close>

lemma sint_diff_small:
  fixes a b :: "64 word"
  assumes "a < 2^63" "b < 2^63"
  shows "sint (a - b) = uint a - uint b"
proof -
  have a: "uint a < 2^63" using assms(1) by (simp_all add: word_less_def)
  have b: "uint b < 2^63" using assms(2) by (simp_all add: word_less_def)
  have "sint (a - b) = signed_take_bit 63 (uint (a - b))"
    by (simp add: sint_uint)
  also have "\<dots> = signed_take_bit 63 (uint a - uint b)"
    by (simp add: uint_word_ariths signed_take_bit_eq_iff_take_bit_eq take_bit_eq_mod)
  also have "\<dots> = uint a - uint b"
    using a b uint_ge_0 [of a] uint_ge_0 [of b]
    by (intro signed_take_bit_int_eq_self) linarith+
  finally show ?thesis .
qed

lemma MyComparator_lt:
  "a < 2^63 \<Longrightarrow> b < 2^63 \<Longrightarrow> (MyComparator a b < 0) = (a < b)"
  by (auto simp: MyComparator_def Let_def sint_diff_small word_less_def)

lemma MyComparator_gt:
  "a < 2^63 \<Longrightarrow> b < 2^63 \<Longrightarrow> (MyComparator a b > 0) = (b < a)"
  by (auto simp: MyComparator_def Let_def sint_diff_small word_less_def)

lemma sint_eq_0: "sint (w :: 64 word) = 0 \<Longrightarrow> w = 0"
  using signed_word_eqI [of w 0, where ?'a = int] by simp

lemma MyComparator_eq: "(MyComparator a b = 0) = (a = b)"
  by (auto simp: MyComparator_def Let_def dest: sint_eq_0)

section \<open>The state after initialisation\<close>

lemmas init_defs = MPI_Init_def startup_def startup_pstate_def host0_def k0_def answers_def InitAddrSpace_def
     Init_Heap_Boundary_def SH_MMAP_def SH_UNMAP_def MAP_FAILED_def InitEnv_def getenv_or_def Let_def
     AllocateSharedMetadata_def CeilLog2_def FloorLog2_def MakeReadOnlyWrapper_def sys_mprotect_def
     CreateAVL_def THRESHOLD_def word_sless_alt word_sle_eq

lemma ready_run: "MPI_Init (startup k0) host0 = Some ready"
proof -
  have "\<exists>s. MPI_Init (startup k0) host0 = Some s" by (simp add: init_defs)
  then show ?thesis by (auto simp: ready_def)
qed

lemma ready_all:
  "case MPI_Init (startup k0) host0 of
     None \<Rightarrow> False
   | Some s \<Rightarrow>
       isMPIInitialized s \<and> \<not> isMPIFinalized s \<and> notMPIApp s = 0 \<and> mergeMetric s = 2
     \<and> mergeMinMemTh s = 2440 \<and> mallocRefFreq s = 1000 \<and> mallocRefCounter s = 0
     \<and> countDownTimer s = 100 \<and> bufferPtr s = 0 \<and> allocRecord s = Some CreateAVL
     \<and> PAGE_SIZE (pg s) = 4096 \<and> log2PAGE_SIZE (pg s) = 12
     \<and> sharedHeapBottom (pg s) = 0x7fff37ff9000 \<and> sharedHeapTop (pg s) = 0x7ffff7ff9000
     \<and> numProc (pg s) = 8 \<and> myRank (pg s) = 0 \<and> currProcMask (pg s) = 1
     \<and> currProcMaskInverted (pg s) = - 2 \<and> sharingProcessesInfo (pg s) = Some (\<lambda>_. 0)
     \<and> aliveProcs (pg s) = 1 \<and> sharedPageCount (pg s) = 1 \<and> allProcPrivatePageCount (pg s) = 192
     \<and> baseCaseTotalPageCount (pg s) = 0 \<and> initializedPagesBV (pg s) = (\<lambda>_. 0)
     \<and> zeroPagesBV (pg s) = (\<lambda>_. 0) \<and> zeroPageCount (pg s) = 0 \<and> mmapCount (pg s) = 3
     \<and> kernel (pg s) = k0 \<and> tick (pg s) = 5 \<and> copies (pg s) = []
     \<and> siblings s = (\<lambda>_. (0, 0)) \<and> races s = 0"
  by (simp add: init_defs)

lemma ready_fields:
  "isMPIInitialized ready" "\<not> isMPIFinalized ready" "notMPIApp ready = 0" "mergeMetric ready = 2"
  "mergeMinMemTh ready = 2440" "mallocRefFreq ready = 1000" "mallocRefCounter ready = 0"
  "countDownTimer ready = 100" "bufferPtr ready = 0" "allocRecord ready = Some CreateAVL"
  "PAGE_SIZE (pg ready) = 4096" "log2PAGE_SIZE (pg ready) = 12"
  "sharedHeapBottom (pg ready) = 0x7fff37ff9000" "sharedHeapTop (pg ready) = 0x7ffff7ff9000"
  "numProc (pg ready) = 8" "myRank (pg ready) = 0" "currProcMask (pg ready) = 1"
  "currProcMaskInverted (pg ready) = - 2" "sharingProcessesInfo (pg ready) = Some (\<lambda>_. 0)"
  "aliveProcs (pg ready) = 1" "sharedPageCount (pg ready) = 1" "allProcPrivatePageCount (pg ready) = 192"
  "baseCaseTotalPageCount (pg ready) = 0" "initializedPagesBV (pg ready) = (\<lambda>_. 0)"
  "zeroPagesBV (pg ready) = (\<lambda>_. 0)" "zeroPageCount (pg ready) = 0" "mmapCount (pg ready) = 3"
  "kernel (pg ready) = k0" "tick (pg ready) = 5" "copies (pg ready) = []"
  "siblings ready = (\<lambda>_. (0, 0))" "races ready = 0"
  using ready_all unfolding ready_run by simp_all

lemma one_region_run: "ShmMallocWrapper ready 8192 = Some (0x7ffff7a00000, one_region)"
proof -
  have "\<exists>s. ShmMallocWrapper ready 8192 = Some (0x7ffff7a00000, s)"
    by (simp add: ShmMallocWrapper_def CheckMPIInitialized_def ready_fields IsCloseToMmapLimit_def
        Let_def SH_MMAP_def k0_def answers_def MAP_FAILED_def ALLOC_FREQUENCY_def)
  then show ?thesis by (auto simp: one_region_def)
qed

lemma one_region_all:
  "case ShmMallocWrapper ready 8192 of
     None \<Rightarrow> False
   | Some (a, s) \<Rightarrow>
       isMPIInitialized s \<and> \<not> isMPIFinalized s \<and> notMPIApp s = 0 \<and> mergeMetric s = 2
     \<and> allocRecord s = Some \<lparr>root = Node NullNode 0x7ffff7a00000 8192 1 0 NullNode, size_avl = 1\<rparr>
     \<and> PAGE_SIZE (pg s) = 4096 \<and> log2PAGE_SIZE (pg s) = 12
     \<and> sharedHeapBottom (pg s) = 0x7fff37ff9000 \<and> sharedHeapTop (pg s) = 0x7ffff7ff9000
     \<and> numProc (pg s) = 8 \<and> currProcMask (pg s) = 1
     \<and> currProcMaskInverted (pg s) = - 2 \<and> sharingProcessesInfo (pg s) = Some (\<lambda>_. 0)
     \<and> sharedPageCount (pg s) = 1 \<and> allProcPrivatePageCount (pg s) = 192
     \<and> baseCaseTotalPageCount (pg s) = 0 \<and> initializedPagesBV (pg s) = (\<lambda>_. 0)
     \<and> zeroPagesBV (pg s) = (\<lambda>_. 0) \<and> zeroPageCount (pg s) = 0 \<and> mmapCount (pg s) = 4
     \<and> kernel (pg s) = k0 \<and> tick (pg s) = 7"
  by (simp add: ShmMallocWrapper_def CheckMPIInitialized_def ready_fields IsCloseToMmapLimit_def
        Let_def SH_MMAP_def k0_def answers_def MAP_FAILED_def ALLOC_FREQUENCY_def
        AspaceAvlInsertWrapper_def InsertAVL_def CreateAVL_def)

lemma one_region_fields:
  "isMPIInitialized one_region" "\<not> isMPIFinalized one_region" "notMPIApp one_region = 0" "mergeMetric one_region = 2"
  "allocRecord one_region = Some \<lparr>root = Node NullNode 0x7ffff7a00000 8192 1 0 NullNode, size_avl = 1\<rparr>"
  "PAGE_SIZE (pg one_region) = 4096" "log2PAGE_SIZE (pg one_region) = 12"
  "sharedHeapBottom (pg one_region) = 0x7fff37ff9000" "sharedHeapTop (pg one_region) = 0x7ffff7ff9000"
  "numProc (pg one_region) = 8" "currProcMask (pg one_region) = 1"
  "currProcMaskInverted (pg one_region) = - 2" "sharingProcessesInfo (pg one_region) = Some (\<lambda>_. 0)"
  "sharedPageCount (pg one_region) = 1" "allProcPrivatePageCount (pg one_region) = 192"
  "baseCaseTotalPageCount (pg one_region) = 0" "initializedPagesBV (pg one_region) = (\<lambda>_. 0)"
  "zeroPagesBV (pg one_region) = (\<lambda>_. 0)" "zeroPageCount (pg one_region) = 0" "mmapCount (pg one_region) = 4"
  "kernel (pg one_region) = k0" "tick (pg one_region) = 7"
  using one_region_all unfolding one_region_run by simp_all

section \<open>Lookups in an allocation index\<close>

lemma Remove_fst: "fst (Remove t k) = Find t k"
  by (induction t) (auto simp: Let_def split: prod.splits)

lemma index_ok_NodeD:
  assumes "index_ok (Node l k v h d r)"
  shows "index_ok l" "index_ok r" "region_ok (k, v)"
        "\<forall>e\<in>set (entries l). fst e < k" "\<forall>e\<in>set (entries r). k < fst e"
  using assms by (auto simp: index_ok_def sorted_wrt_append)

lemma region_ok_base: "region_ok (k, v) \<Longrightarrow> k < 2 ^ 63"
  unfolding region_ok_def by (simp add: word_less_nat_alt unat_gt_0 [symmetric])

lemma Find_step:
  assumes "k < 2 ^ 63" "a < 2 ^ 63"
  shows "Find (Node l k v h d r) a = (if a < k then Find l a else if k < a then Find r a else v)"
  using assms by (simp add: Let_def MyComparator_lt MyComparator_gt)

lemma Find_present:
  assumes "index_ok t" "a < 2 ^ 63" "(a, v) \<in> set (entries t)"
  shows "Find t a = v"
  using assms
proof (induction t)
  case NullNode
  then show ?case by simp
next
  case (Node l k w h d r)
  note D = index_ok_NodeD [OF Node.prems(1)]
  have k63: "k < 2 ^ 63" using D(3) by (rule region_ok_base)
  note step = Find_step [OF k63 Node.prems(2), of l w h d r]
  show ?case
  proof (cases "a < k")
    case True
    then have "(a, v) \<in> set (entries l)" using Node.prems(3) D(5) by fastforce
    then show ?thesis using Node.IH(1) D(1) Node.prems(2) True by (simp only: step if_True)
  next
    case False
    show ?thesis
    proof (cases "k < a")
      case True
      then have "(a, v) \<in> set (entries r)" using Node.prems(3) D(4) by fastforce
      then show ?thesis using Node.IH(2) D(2) Node.prems(2) True False by (simp only: step if_True if_False)
    next
      case nk: False
      then have ak: "a = k" using False by simp
      then have "v = w" using Node.prems(3) D(4) D(5) by fastforce
      then show ?thesis using False nk by (simp only: step if_False)
    qed
  qed
qed

lemma Find_absent: "a \<notin> fst ` set (entries t) \<Longrightarrow> Find t a = 0"
  by (induction t) (auto simp: Let_def MyComparator_eq)

lemma region_ok_size_pos: 
  assumes "region_ok (k, v)" shows "0 < sint v"
proof -
  have v0: "0 < v" using assms by (simp add: region_ok_def)
  have "unat v < 2 ^ 63" using assms unfolding region_ok_def snd_conv by linarith
  then have "v < 2 ^ 63" by (simp add: word_less_nat_alt)
  then have u: "uint v < 2 ^ 63" by (simp add: word_less_def)
  have p: "0 < uint v" using v0 by (simp add: word_less_def)
  have "sint v = signed_take_bit 63 (uint v)" by (simp add: sint_uint)
  also have "\<dots> = uint v"
    using u p by (intro signed_take_bit_int_eq_self) linarith+
  finally show ?thesis using p by simp
qed

lemma index_ok_regions: "index_ok t \<Longrightarrow> e \<in> set (entries t) \<Longrightarrow> region_ok e"
  by (simp add: index_ok_def list_all_iff)

section \<open>ShmFreeWrapper\<close>

lemma ShmFreeWrapper_init:
  assumes "CheckMPIInitialized s" "allocRecord s = Some tree"
  shows "ShmFreeWrapper s ptr =
    (let len = Find (root tree) ptr; s1 = s\<lparr>allocRecord := Some (snd (RemoveAVL tree ptr))\<rparr> in
      if sint len \<le> 0 then Some (- 1, s1)
      else do {
        offs \<leftarrow> int_page_offsets (SH_UNMAP (pg s) ptr len) len;
        p \<leftarrow> (if mergeMetric s \<noteq> MERGE_DISABLED
              then ShmFreeWrapper_pages (SH_UNMAP (pg s) ptr len) False ptr offs
              else ShmFreeWrapper_pages_disabled (SH_UNMAP (pg s) ptr len) ptr offs);
        Some (1, s1\<lparr>pg := p\<rparr>)
      })"
proof -
  obtain res node dec where R: "Remove (root tree) ptr = (res, node, dec)"
    by (cases "Remove (root tree) ptr") auto
  have F: "Find (root tree) ptr = res" using Remove_fst [of "root tree" ptr] R by simp
  show ?thesis
    unfolding ShmFreeWrapper_def AspaceAvlRemoveWrapper_def RemoveAVL_def
    using assms by (simp add: R F Let_def)
qed

lemma ShmFreeWrapper_result:
  assumes "CheckMPIInitialized s" "allocRecord s = Some tree" "ShmFreeWrapper s ptr = Some (r, s')"
  shows "r = (if sint (Find (root tree) ptr) \<le> 0 then - 1 else 1)"
  using assms(3) unfolding ShmFreeWrapper_init [OF assms(1,2)] Let_def
  by (auto split: if_splits bind_splits)

lemma page_ok_frame:
  "numProc s' = numProc s \<Longrightarrow> sharedHeapBottom s' = sharedHeapBottom s
   \<Longrightarrow> sharedHeapTop s' = sharedHeapTop s \<Longrightarrow> page_ok s' a = page_ok s a"
  by (simp add: page_ok_def)

lemma ResetAndReturnBit_ok:
  "page_ok s a \<Longrightarrow> \<exists>b bv. ResetAndReturnBit s arr a = Some (b, bv)"
  by (simp add: page_ok_def ResetAndReturnBit_def Addr2PageIndex_def TranslateMmapAddr_def)

lemma GetSharingBit_ok:
  "page_ok s a \<Longrightarrow> \<exists>b. GetSharingBit s a = Some b"
  by (auto simp: page_ok_def GetSharingBit_def Addr2PageIndex_def TranslateMmapAddr_def
      split: option.splits)

lemma CountSharingProcs_ok:
  "page_ok s a \<Longrightarrow> \<exists>n. CountSharingProcs s a = Some n"
  by (auto simp: page_ok_def CountSharingProcs_def Addr2PageIndex_def TranslateMmapAddr_def
      split: option.splits)

lemma UnsetSharingBit_ok:
  "page_ok s a \<Longrightarrow> \<exists>s'. UnsetSharingBit s a = Some s' \<and> numProc s' = numProc s
     \<and> sharedHeapBottom s' = sharedHeapBottom s \<and> sharedHeapTop s' = sharedHeapTop s"
  by (auto simp: page_ok_def UnsetSharingBit_def Addr2PageIndex_def TranslateMmapAddr_def
      split: option.splits)

lemma ShmFreeWrapper_pages_step:
  assumes ok: "page_ok s (ptr + i)"
  shows "\<exists>s' b'. ShmFreeWrapper_pages s b ptr (i # rest) = ShmFreeWrapper_pages s' b' ptr rest
           \<and> numProc s' = numProc s \<and> sharedHeapBottom s' = sharedHeapBottom s
           \<and> sharedHeapTop s' = sharedHeapTop s"
proof -
  obtain b1 bv where r1: "ResetAndReturnBit s (initializedPagesBV s) (ptr + i) = Some (b1, bv)"
    using ResetAndReturnBit_ok [OF ok] by blast
  define s1 where "s1 = s\<lparr>initializedPagesBV := bv\<rparr>"
  have f1: "numProc s1 = numProc s" "sharedHeapBottom s1 = sharedHeapBottom s"
           "sharedHeapTop s1 = sharedHeapTop s"
    by (simp_all add: s1_def)
  have ok1: "page_ok s1 (ptr + i)" using ok by (simp add: page_ok_def f1)
  have e1: "ShmFreeWrapper_pages s b ptr (i # rest) =
     (if b1 then do {
       (is_zero_page, zbv) \<leftarrow> ResetAndReturnBit s1 (zeroPagesBV s1) (ptr + i);
       let s = s1\<lparr>zeroPagesBV := zbv\<rparr>;
       is_shared_page \<leftarrow> GetSharingBit s (ptr + i);
       let s = s\<lparr>baseCaseTotalPageCount := baseCaseTotalPageCount s - 1\<rparr>;
       let s = (if b \<and> \<not> is_shared_page then s\<lparr>mmapCount := mmapCount s - 1\<rparr> else s);
       if is_zero_page then
         ShmFreeWrapper_pages (s\<lparr>zeroPageCount := zeroPageCount s - 1, mmapCount := mmapCount s - 1\<rparr>)
           False ptr rest
       else if is_shared_page then do {
         sh_cnt \<leftarrow> CountSharingProcs s (ptr + i);
         let s = (if sh_cnt = 1 then s\<lparr>allProcPrivatePageCount := allProcPrivatePageCount s - 1\<rparr>
                  else if sh_cnt = 2
                  then s\<lparr>sharedPageCount := sharedPageCount s - 1,
                         allProcPrivatePageCount := allProcPrivatePageCount s + 1\<rparr>
                  else s);
         s \<leftarrow> UnsetSharingBit s (ptr + i);
         ShmFreeWrapper_pages s True ptr rest
       }
       else ShmFreeWrapper_pages (s\<lparr>allProcPrivatePageCount := allProcPrivatePageCount s - 1\<rparr>)
              False ptr rest
     }
     else if b then
       ShmFreeWrapper_pages (s1\<lparr>mmapCount := mmapCount s1 - 1\<rparr>) False ptr rest
     else ShmFreeWrapper_pages s1 b ptr rest)"
    by (simp add: r1 s1_def Let_def)
  show ?thesis
  proof (cases b1)
    case False
    show ?thesis
    proof (cases b)
      case True
      have "ShmFreeWrapper_pages s b ptr (i # rest)
            = ShmFreeWrapper_pages (s1\<lparr>mmapCount := mmapCount s1 - 1\<rparr>) False ptr rest"
        unfolding e1 using False True by simp
      then show ?thesis using f1 by (intro exI [of _ "s1\<lparr>mmapCount := mmapCount s1 - 1\<rparr>"] exI [of _ False]) simp
    next
      case nb: False
      have "ShmFreeWrapper_pages s b ptr (i # rest) = ShmFreeWrapper_pages s1 b ptr rest"
        unfolding e1 using False nb by simp
      then show ?thesis using f1 by (intro exI [of _ s1] exI [of _ b]) simp
    qed
  next
    case True
    obtain b2 zbv where r2: "ResetAndReturnBit s1 (zeroPagesBV s1) (ptr + i) = Some (b2, zbv)"
      using ResetAndReturnBit_ok [OF ok1] by blast
    define s2 where "s2 = s1\<lparr>zeroPagesBV := zbv\<rparr>"
    have f2: "numProc s2 = numProc s" "sharedHeapBottom s2 = sharedHeapBottom s"
           "sharedHeapTop s2 = sharedHeapTop s"
      by (simp_all add: s2_def f1)
    have ok2: "page_ok s2 (ptr + i)" using ok by (simp add: page_ok_def f2)
    obtain b3 where r3: "GetSharingBit s2 (ptr + i) = Some b3"
      using GetSharingBit_ok [OF ok2] by blast
    define s3 where "s3 = (if b \<and> \<not> b3
        then s2\<lparr>baseCaseTotalPageCount := baseCaseTotalPageCount s2 - 1,
                mmapCount := mmapCount s2 - 1\<rparr>
        else s2\<lparr>baseCaseTotalPageCount := baseCaseTotalPageCount s2 - 1\<rparr>)"
    have f3: "numProc s3 = numProc s" "sharedHeapBottom s3 = sharedHeapBottom s"
           "sharedHeapTop s3 = sharedHeapTop s"
      by (simp_all add: s3_def f2)
    have ok3: "page_ok s3 (ptr + i)" using ok by (simp add: page_ok_def f3)
    have e2: "ShmFreeWrapper_pages s b ptr (i # rest) =
       (if b2 then
         ShmFreeWrapper_pages (s3\<lparr>zeroPageCount := zeroPageCount s3 - 1, mmapCount := mmapCount s3 - 1\<rparr>)
           False ptr rest
       else if b3 then do {
         sh_cnt \<leftarrow> CountSharingProcs s3 (ptr + i);
         let s = (if sh_cnt = 1 then s3\<lparr>allProcPrivatePageCount := allProcPrivatePageCount s3 - 1\<rparr>
                  else if sh_cnt = 2
                  then s3\<lparr>sharedPageCount := sharedPageCount s3 - 1,
                         allProcPrivatePageCount := allProcPrivatePageCount s3 + 1\<rparr>
                  else s3);
         s \<leftarrow> UnsetSharingBit s (ptr + i);
         ShmFreeWrapper_pages s True ptr rest
       }
       else ShmFreeWrapper_pages (s3\<lparr>allProcPrivatePageCount := allProcPrivatePageCount s3 - 1\<rparr>)
              False ptr rest)"
      using True r2 r3 unfolding e1 s3_def s2_def by (auto simp: Let_def)
    show ?thesis
    proof (cases b2)
      case True
      let ?t = "s3\<lparr>zeroPageCount := zeroPageCount s3 - 1, mmapCount := mmapCount s3 - 1\<rparr>"
      have "ShmFreeWrapper_pages s b ptr (i # rest) = ShmFreeWrapper_pages ?t False ptr rest"
        unfolding e2 using True by simp
      then show ?thesis using f3 by (intro exI [of _ ?t] exI [of _ False]) simp
    next
      case nz: False
      show ?thesis
      proof (cases b3)
        case False
        let ?t = "s3\<lparr>allProcPrivatePageCount := allProcPrivatePageCount s3 - 1\<rparr>"
        have "ShmFreeWrapper_pages s b ptr (i # rest) = ShmFreeWrapper_pages ?t False ptr rest"
          unfolding e2 using nz False by simp
        then show ?thesis using f3 by (intro exI [of _ ?t] exI [of _ False]) simp
      next
        case sh: True
        obtain cnt where r4: "CountSharingProcs s3 (ptr + i) = Some cnt"
          using CountSharingProcs_ok [OF ok3] by blast
        define s4 where "s4 = (if cnt = 1 then s3\<lparr>allProcPrivatePageCount := allProcPrivatePageCount s3 - 1\<rparr>
                  else if cnt = 2
                  then s3\<lparr>sharedPageCount := sharedPageCount s3 - 1,
                         allProcPrivatePageCount := allProcPrivatePageCount s3 + 1\<rparr>
                  else s3)"
        have f4: "numProc s4 = numProc s" "sharedHeapBottom s4 = sharedHeapBottom s"
           "sharedHeapTop s4 = sharedHeapTop s"
          by (simp_all add: s4_def f3)
        have ok4: "page_ok s4 (ptr + i)" using ok by (simp add: page_ok_def f4)
        obtain s5 where r5: "UnsetSharingBit s4 (ptr + i) = Some s5"
          and f5: "numProc s5 = numProc s4" "sharedHeapBottom s5 = sharedHeapBottom s4"
             "sharedHeapTop s5 = sharedHeapTop s4"
          using UnsetSharingBit_ok [OF ok4] by blast
        have "ShmFreeWrapper_pages s b ptr (i # rest) = ShmFreeWrapper_pages s5 True ptr rest"
          using nz sh r4 r5 unfolding e2 s4_def by (simp add: Let_def)
        then show ?thesis using f4 f5 by (intro exI [of _ s5] exI [of _ True]) simp
      qed
    qed
  qed
qed

lemma ShmFreeWrapper_pages_total:
  assumes "\<forall>i\<in>set offs. page_ok s (ptr + i)"
  shows "\<exists>s'. ShmFreeWrapper_pages s b ptr offs = Some s'"
  using assms
proof (induction offs arbitrary: s b)
  case Nil
  then show ?case by simp
next
  case (Cons i rest)
  have "page_ok s (ptr + i)" using Cons.prems by simp
  from ShmFreeWrapper_pages_step [OF this, of b rest]
  obtain s' b' where e: "ShmFreeWrapper_pages s b ptr (i # rest) = ShmFreeWrapper_pages s' b' ptr rest"
    and f: "numProc s' = numProc s" "sharedHeapBottom s' = sharedHeapBottom s"
           "sharedHeapTop s' = sharedHeapTop s"
    by blast
  have "\<forall>j\<in>set rest. page_ok s' (ptr + j)"
    using Cons.prems by (simp add: page_ok_frame [OF f])
  then have "\<exists>s''. ShmFreeWrapper_pages s' b' ptr rest = Some s''" by (rule Cons.IH)
  then show ?case unfolding e .
qed

lemma ShmFreeWrapper_pages_disabled_total:
  assumes "\<forall>i\<in>set offs. page_ok s (ptr + i)"
  shows "\<exists>s'. ShmFreeWrapper_pages_disabled s ptr offs = Some s'"
  using assms
proof (induction offs arbitrary: s)
  case Nil
  then show ?case by simp
next
  case (Cons i rest)
  have ok: "page_ok s (ptr + i)" using Cons.prems by simp
  obtain b1 bv where r1: "ResetAndReturnBit s (initializedPagesBV s) (ptr + i) = Some (b1, bv)"
    using ResetAndReturnBit_ok [OF ok] by blast
  define s1 where "s1 = (if b1
        then s\<lparr>initializedPagesBV := bv,
               baseCaseTotalPageCount := baseCaseTotalPageCount s - 1,
               allProcPrivatePageCount := allProcPrivatePageCount s - 1\<rparr>
        else s\<lparr>initializedPagesBV := bv\<rparr>)"
  have f: "numProc s1 = numProc s" "sharedHeapBottom s1 = sharedHeapBottom s"
           "sharedHeapTop s1 = sharedHeapTop s"
    by (simp_all add: s1_def)
  have e: "ShmFreeWrapper_pages_disabled s ptr (i # rest) = ShmFreeWrapper_pages_disabled s1 ptr rest"
    using r1 unfolding s1_def by (auto simp: Let_def)
  have "\<forall>j\<in>set rest. page_ok s1 (ptr + j)"
    using Cons.prems by (simp add: page_ok_frame [OF f])
  then have "\<exists>s''. ShmFreeWrapper_pages_disabled s1 ptr rest = Some s''" by (rule Cons.IH)
  then show ?case unfolding e .
qed

lemma ceil_pages_below:
  fixes L ps i :: nat
  assumes "0 < ps" "i < (L + ps - 1) div ps"
  shows "i * ps < L"
proof -
  have "Suc i \<le> (L + ps - 1) div ps" using assms(2) by simp
  then have "Suc i * ps \<le> L + ps - 1"
    using assms(1) by (simp add: less_eq_div_iff_mult_less_eq)
  then show ?thesis using assms(1) by simp
qed

lemma unat_of_nat_small: "n < 2 ^ 64 \<Longrightarrow> unat (of_nat n :: 64 word) = n"
  by (simp add: unat_of_nat)

lemma page_offsets_in_heap:
  assumes "in_heap p a len" "fits_int p len"
  shows "\<exists>offs. int_page_offsets p len = Some offs \<and> (\<forall>i\<in>set offs. page_ok p (a + i))"
proof -
  let ?ps = "unat (PAGE_SIZE p)"
  let ?n = "(unat len + ?ps - 1) div ?ps"
  let ?offs = "map (\<lambda>i. of_nat (i * ?ps) :: 64 word) [0 ..< ?n]"
  have ps: "0 < ?ps" using assms(1) by (simp add: in_heap_def unat_gt_0)
  have np: "numProc p = 8 \<or> numProc p = 16" and lo: "sharedHeapBottom p < a"
    and hi: "unat a + unat len \<le> unat (sharedHeapTop p)"
    using assms(1) by (simp_all add: in_heap_def)
  have po: "page_offsets p len = Some ?offs"
    using assms(1) by (simp add: page_offsets_def in_heap_def)
  have C: "length ?offs = ?n" by simp
  have "length ?offs * ?ps \<le> 2147483647" unfolding C using assms(2) unfolding fits_int_def .
  then have ipo: "int_page_offsets p len = Some ?offs"
    unfolding int_page_offsets_def po by simp
  have each: "page_ok p (a + of_nat (i * ?ps))" if "i < ?n" for i
  proof -
    have b: "i * ?ps < unat len" using ps that by (rule ceil_pages_below)
    have top: "unat (sharedHeapTop p) < 2 ^ 64" using unsigned_less [of "sharedHeapTop p"] by simp
    have "unat len < 2 ^ 64" using unsigned_less [of len] by simp
    then have "i * ?ps < 2 ^ 64" using b by linarith
    then have u: "unat (of_nat (i * ?ps) :: 64 word) = i * ?ps"
      by (rule unat_of_nat_small)
    have s: "unat (a + of_nat (i * ?ps)) = unat a + i * ?ps"
      using b hi top u by (simp add: unat_word_ariths)
    have le: "a \<le> a + of_nat (i * ?ps)" unfolding word_le_nat_alt s by simp
    have lt: "a + of_nat (i * ?ps) < sharedHeapTop p"
      unfolding word_less_nat_alt s using b hi by linarith
    have gt: "sharedHeapBottom p < a + of_nat (i * ?ps)" using lo le by (rule less_le_trans)
    show ?thesis unfolding page_ok_def using np gt lt by blast
  qed
  have "\<forall>i\<in>set ?offs. page_ok p (a + i)" using each by auto
  then show ?thesis using ipo by blast
qed

lemma SH_UNMAP_in_heap:
  "in_heap (SH_UNMAP p a len) b n = in_heap p b n"
  "fits_int (SH_UNMAP p a len) n = fits_int p n"
  by (simp_all add: in_heap_def fits_int_def SH_UNMAP_def)

lemma int_page_offsets_overflow:
  "\<not> fits_int p len \<Longrightarrow> int_page_offsets p len = None"
  by (auto simp: int_page_offsets_def page_offsets_def fits_int_def split: bind_splits)

lemma ShmFreeWrapper_total:
  assumes init: "CheckMPIInitialized s" and rec: "allocRecord s = Some tree"
    and pos: "0 < sint (Find (root tree) ptr)" and heap: "in_heap (pg s) ptr (Find (root tree) ptr)"
    and fits: "fits_int (pg s) (Find (root tree) ptr)"
  shows "\<exists>s'. ShmFreeWrapper s ptr = Some (1, s')"
proof -
  let ?len = "Find (root tree) ptr"
  let ?p = "SH_UNMAP (pg s) ptr ?len"
  have "in_heap ?p ptr ?len" "fits_int ?p ?len" using heap fits by (simp_all only: SH_UNMAP_in_heap)
  then obtain offs where o: "int_page_offsets ?p ?len = Some offs"
    and w: "\<forall>i\<in>set offs. page_ok ?p (ptr + i)"
    using page_offsets_in_heap by blast
  obtain p1 where p1: "ShmFreeWrapper_pages ?p False ptr offs = Some p1"
    using ShmFreeWrapper_pages_total [OF w] by blast
  obtain p2 where p2: "ShmFreeWrapper_pages_disabled ?p ptr offs = Some p2"
    using ShmFreeWrapper_pages_disabled_total [OF w] by blast
  show ?thesis
    unfolding ShmFreeWrapper_init [OF init rec] Let_def
    using pos by (simp add: o p1 p2)
qed

lemma ShmFreeWrapper_overflow:
  assumes init: "CheckMPIInitialized s" and rec: "allocRecord s = Some tree"
    and pos: "0 < sint (Find (root tree) ptr)"
    and big: "\<not> fits_int (pg s) (Find (root tree) ptr)"
  shows "ShmFreeWrapper s ptr = None"
proof -
  let ?len = "Find (root tree) ptr"
  have "\<not> fits_int (SH_UNMAP (pg s) ptr ?len) ?len" using big by (simp add: SH_UNMAP_in_heap)
  then have "int_page_offsets (SH_UNMAP (pg s) ptr ?len) ?len = None"
    by (rule int_page_offsets_overflow)
  then show ?thesis
    unfolding ShmFreeWrapper_init [OF init rec] Let_def using pos by simp
qed

lemma ShmFreeWrapper_no_index:
  "CheckMPIInitialized s \<Longrightarrow> allocRecord s = None \<Longrightarrow> ShmFreeWrapper s ptr = Some (- 1, s)"
  by (simp add: ShmFreeWrapper_def AspaceAvlRemoveWrapper_def)

lemma ShmFreeWrapper_values:
  "ShmFreeWrapper s ptr = Some (r, s') \<Longrightarrow> r = 1 \<or> r = - 1"
  unfolding ShmFreeWrapper_def Let_def
  by (auto split: if_splits prod.splits bind_splits)

section \<open>A store that faults twice\<close>



lemma write_fault_unmapped: "vmap (pg s) a = None \<Longrightarrow> write_fault s a = None"
  by (subst write_fault.simps) (simp add: SigSegvHandler_def Let_def)

lemma boot_all:
  "case MPI_Init (startup (answers ([0x7ffff7ff8000, 0x7ffff7ff7000, 0x7ffff7ff6000,
       0x7ffff7c00000, 0x7ffff7bff000] @ later))) host0 of
     None \<Rightarrow> False
   | Some s \<Rightarrow>
       isMPIInitialized s \<and> \<not> isMPIFinalized s \<and> notMPIApp s = 0 \<and> mergeMetric s = 2
     \<and> mergeMinMemTh s = 2440 \<and> mallocRefFreq s = 1000 \<and> mallocRefCounter s = 0
     \<and> countDownTimer s = 100 \<and> bufferPtr s = 0 \<and> allocRecord s = Some CreateAVL
     \<and> PAGE_SIZE (pg s) = 4096 \<and> log2PAGE_SIZE (pg s) = 12
     \<and> sharedHeapBottom (pg s) = 0x7fff37ff9000 \<and> sharedHeapTop (pg s) = 0x7ffff7ff9000
     \<and> numProc (pg s) = 8 \<and> myRank (pg s) = 0 \<and> currProcMask (pg s) = 1
     \<and> currProcMaskInverted (pg s) = - 2 \<and> sharingProcessesInfo (pg s) = Some (\<lambda>_. 0)
     \<and> aliveProcs (pg s) = 1 \<and> sharedPageCount (pg s) = 1 \<and> allProcPrivatePageCount (pg s) = 192
     \<and> baseCaseTotalPageCount (pg s) = 0 \<and> initializedPagesBV (pg s) = (\<lambda>_. 0)
     \<and> zeroPagesBV (pg s) = (\<lambda>_. 0) \<and> zeroPageCount (pg s) = 0 \<and> mmapCount (pg s) = 3
     \<and> kernel (pg s) = answers ([0x7ffff7ff8000, 0x7ffff7ff7000, 0x7ffff7ff6000,
       0x7ffff7c00000, 0x7ffff7bff000] @ later) \<and> tick (pg s) = 5 \<and> copies (pg s) = []
     \<and> siblings s = (\<lambda>_. (0, 0)) \<and> races s = 0"
  by (simp add: init_defs)

lemma boot_run:
  "MPI_Init (startup (answers ([0x7ffff7ff8000, 0x7ffff7ff7000, 0x7ffff7ff6000,
       0x7ffff7c00000, 0x7ffff7bff000] @ later))) host0 = Some (boot later)"
  using boot_all [of later] unfolding boot_def by (simp split: option.splits)

lemma boot_fields:
  "isMPIInitialized (boot later)" "\<not> isMPIFinalized (boot later)" "notMPIApp (boot later) = 0"
  "mergeMetric (boot later) = 2" "mergeMinMemTh (boot later) = 2440"
  "mallocRefFreq (boot later) = 1000" "mallocRefCounter (boot later) = 0"
  "countDownTimer (boot later) = 100" "bufferPtr (boot later) = 0"
  "allocRecord (boot later) = Some CreateAVL"
  "PAGE_SIZE (pg (boot later)) = 4096" "log2PAGE_SIZE (pg (boot later)) = 12"
  "sharedHeapBottom (pg (boot later)) = 0x7fff37ff9000"
  "sharedHeapTop (pg (boot later)) = 0x7ffff7ff9000"
  "numProc (pg (boot later)) = 8" "myRank (pg (boot later)) = 0" "currProcMask (pg (boot later)) = 1"
  "currProcMaskInverted (pg (boot later)) = - 2"
  "sharingProcessesInfo (pg (boot later)) = Some (\<lambda>_. 0)"
  "aliveProcs (pg (boot later)) = 1" "sharedPageCount (pg (boot later)) = 1"
  "allProcPrivatePageCount (pg (boot later)) = 192"
  "baseCaseTotalPageCount (pg (boot later)) = 0" "initializedPagesBV (pg (boot later)) = (\<lambda>_. 0)"
  "zeroPagesBV (pg (boot later)) = (\<lambda>_. 0)" "zeroPageCount (pg (boot later)) = 0"
  "mmapCount (pg (boot later)) = 3"
  "kernel (pg (boot later)) = answers ([0x7ffff7ff8000, 0x7ffff7ff7000, 0x7ffff7ff6000,
       0x7ffff7c00000, 0x7ffff7bff000] @ later)"
  "tick (pg (boot later)) = 5" "copies (pg (boot later)) = []"
  "siblings (boot later) = (\<lambda>_. (0, 0))" "races (boot later) = 0"
  using boot_all [of later] unfolding boot_run by simp_all

lemmas call_defs = ShmMallocWrapper_def CheckMPIInitialized_def IsCloseToMmapLimit_def
        Let_def SH_MMAP_def answers_def MAP_FAILED_def ALLOC_FREQUENCY_def
        AspaceAvlInsertWrapper_def InsertAVL_def CreateAVL_def in_range_def




lemmas handler_defs = SigSegvHandler_def BUFFERED_def MERGE_DISABLED_def THRESHOLD_def Let_def
  MyComparator_def SetAndReturnBit_def ResetAndReturnBit_def Addr2PageIndex_def TranslateMmapAddr_def
  bit_mask_def MakeReadWriteWrapper_def sys_mprotect_def set_prot_def in_range_def
  GetSharingBit_def UnsetSharingBit_def CountSharingProcs_def load_entry_def store_entry_def
  SH_MMAP_def SH_UNMAP_def sys_mremap_def memcpy_def answers_def MAP_FAILED_def
  MergeByTHRESHOLD_def sibling_writes_def word_sle_eq word_sless_alt

lemmas merge_defs = TraverseAVL_def MergeNode2_def IsCloseToMmapLimit_def MergeManyPages_def
  MergeManyPages_page_def page_offsets_def GetSharedRegion_def MMAP_BUFFER_SIZE_def GetBit_def
  compare_pages_def IsOtherSharing_def FLUSH_OUTSTANDING_MERGES_def RemapToZero_def
  RemapRegion_def CopyAndRemapRegion_def SetBit_def SetMultiBits_def upt_conv_Cons









section \<open>The merge pass and the heap window\<close>

lemma window_simps [simp]:
  "window (SH_UNMAP p a n) = window p"
  "window (snd (SH_MMAP p a n pr fx fl)) = window p"
  "window (snd (sys_mremap p a n b)) = window p"
  "window (sys_mprotect p a n pr) = window p"
  "window (MakeReadOnlyWrapper p a n) = window p"
  "window (MakeReadWriteWrapper p a n) = window p"
  "window (memcpy p a b n) = window p"
  "window (snd (compare_pages p a b)) = window p"
  by (simp_all add: window_def SH_UNMAP_def SH_MMAP_def sys_mremap_def sys_mprotect_def
      MakeReadOnlyWrapper_def MakeReadWriteWrapper_def memcpy_def compare_pages_def Let_def)

lemma SetSharingBit_window: "SetSharingBit p a = Some p' \<Longrightarrow> window p' = window p"
  by (auto simp: SetSharingBit_def window_def split: option.splits if_splits bind_splits)

lemma SH_MMAP_window: "SH_MMAP p a n pr fx fl = (q, p') \<Longrightarrow> window p' = window p"
  using window_simps(2) [of p a n pr fx fl] by simp

lemma sys_mremap_window: "sys_mremap p a n b = (q, p') \<Longrightarrow> window p' = window p"
  using window_simps(3) [of p a n b] by simp

lemma compare_pages_window: "compare_pages p a b = (q, p') \<Longrightarrow> window p' = window p"
  using window_simps(8) [of p a b] by simp

lemma GetSharedRegion_window: "GetSharedRegion p a fx n = Some (q, p') \<Longrightarrow> window p' = window p"
  unfolding GetSharedRegion_def
  by (auto split: if_splits bind_splits dest: SH_MMAP_window)

lemma SetSharingBit_pages_window:
  "SetSharingBit_pages p start offs = Some p' \<Longrightarrow> window p' = window p"
proof (induction offs arbitrary: p)
  case Nil then show ?case by simp
next
  case (Cons off offs)
  then obtain p1 where a: "SetSharingBit p (start + off) = Some p1"
    and b: "SetSharingBit_pages p1 start offs = Some p'" by (auto split: bind_splits)
  show ?case using SetSharingBit_window [OF a] Cons.IH [OF b] by simp
qed

lemma CopyAndRemapRegion_window:
  assumes "CopyAndRemapRegion p start n = Some (r, p')"
  shows "window p' = window p"
proof -
  obtain q p1 where g: "GetSharedRegion p start False n = Some (q, p1)"
    using assms unfolding CopyAndRemapRegion_def by (auto split: bind_splits)
  note w1 = GetSharedRegion_window [OF g]
  show ?thesis
  proof (cases "q = MAP_FAILED")
    case True
    then show ?thesis using assms g w1 unfolding CopyAndRemapRegion_def by simp
  next
    case False
    let ?p2 = "memcpy p1 q start n"
    obtain q' p3 where m: "sys_mremap ?p2 q n start = (q', p3)" by (cases "sys_mremap ?p2 q n start")
    have w3: "window p3 = window p" using window_simps(3) [of ?p2 q n start] m w1 by simp
    from assms g False m obtain offs p4 where
      s: "SetSharingBit_pages p3 start offs = Some p4" and e: "p' = MakeReadOnlyWrapper p4 start n"
      unfolding CopyAndRemapRegion_def Let_def by (auto split: if_splits bind_splits)
    show ?thesis using SetSharingBit_pages_window [OF s] w3 e by simp
  qed
qed

lemma RemapRegion_pages_window:
  "RemapRegion_pages p start offs = Some p' \<Longrightarrow> window p' = window p"
proof (induction offs arbitrary: p)
  case Nil then show ?case by simp
next
  case (Cons off offs)
  from Cons.prems obtain cnt where c: "CountSharingProcs p (start + off) = Some cnt"
    by (auto split: bind_splits)
  define p1 where "p1 = (if cnt = 1
               then p\<lparr>sharedPageCount := sharedPageCount p + 1,
                      allProcPrivatePageCount := allProcPrivatePageCount p - 1\<rparr>
               else p)"
  define p2 where "p2 = p1\<lparr>allProcPrivatePageCount := allProcPrivatePageCount p1 - 1\<rparr>"
  have w: "window p2 = window p" by (simp add: p2_def p1_def window_def)
  have "SetSharingBit p2 (start + off) \<bind> (\<lambda>s3. RemapRegion_pages s3 start offs) = Some p'"
    using Cons.prems c unfolding p2_def p1_def by (simp add: Let_def)
  then obtain p3 where a: "SetSharingBit p2 (start + off) = Some p3"
    and b: "RemapRegion_pages p3 start offs = Some p'"
    by (auto split: bind_splits)
  show ?case using SetSharingBit_window [OF a] Cons.IH [OF b] w by simp
qed

lemma RemapRegion_window:
  assumes "RemapRegion p start n = Some (r, p')"
  shows "window p' = window p"
proof -
  obtain q p1 where g: "GetSharedRegion p start True n = Some (q, p1)"
    using assms unfolding RemapRegion_def by (auto split: bind_splits)
  note w1 = GetSharedRegion_window [OF g]
  show ?thesis
  proof (cases "q = MAP_FAILED")
    case True
    then show ?thesis using assms g w1 unfolding RemapRegion_def by simp
  next
    case False
    from assms g False obtain offs p2 where
      s: "RemapRegion_pages p1 start offs = Some p2" and e: "p' = MakeReadOnlyWrapper p2 start n"
      unfolding RemapRegion_def Let_def by (auto split: if_splits bind_splits)
    show ?thesis using RemapRegion_pages_window [OF s] w1 e by simp
  qed
qed

lemma RemapToZero_pages_window:
  "RemapToZero_pages p start offs = (b, p') \<Longrightarrow> window p' = window p"
proof (induction offs arbitrary: p)
  case Nil then show ?case by simp
next
  case (Cons off offs)
  obtain q p1 where m: "SH_MMAP p (start + off) (PAGE_SIZE p) PROT_READ True (Some 0) = (q, p1)"
    by (cases "SH_MMAP p (start + off) (PAGE_SIZE p) PROT_READ True (Some 0)")
  note w1 = SH_MMAP_window [OF m]
  show ?case
  proof (cases "q = MAP_FAILED")
    case True
    then show ?thesis using Cons.prems m w1 by (simp add: IsCloseToMmapLimit_def)
  next
    case False
    let ?p2 = "p1\<lparr>zeroPageCount := zeroPageCount p1 + 1,
                    allProcPrivatePageCount := allProcPrivatePageCount p1 - 1\<rparr>"
    have "RemapToZero_pages ?p2 start offs = (b, p')"
      using Cons.prems m False by (simp add: IsCloseToMmapLimit_def)
    from Cons.IH [OF this] show ?thesis using w1 by (simp add: window_def)
  qed
qed

lemma RemapToZero_window:
  assumes "RemapToZero p start n = Some (r, p')"
  shows "window p' = window p"
proof -
  from assms obtain offs where o: "page_offsets p n = Some offs"
    unfolding RemapToZero_def by (auto split: bind_splits)
  obtain b p1 where z: "RemapToZero_pages p start offs = (b, p1)"
    by (cases "RemapToZero_pages p start offs")
  note w1 = RemapToZero_pages_window [OF z]
  from assms o z have "p' = p1 \<or> (\<exists>bv. p' = p1\<lparr>zeroPagesBV := bv\<rparr>)"
    unfolding RemapToZero_def by (auto split: if_splits bind_splits)
  then show ?thesis using w1 by (auto simp: window_def)
qed

lemma FLUSH_window:
  assumes "FLUSH_OUTSTANDING_MERGES p l e = Some (l', p')"
  shows "window p' = window p"
proof (cases "mergeable_start_addr l \<noteq> 0")
  case False
  then show ?thesis using assms unfolding FLUSH_OUTSTANDING_MERGES_def by (auto split: bind_splits)
next
  case True
  let ?start = "mergeable_start_addr l"
  let ?len = "e - ?start"
  from assms True obtain p1 p2 p3 where
    a: "(if last_page_shareable l then map_option snd (RemapRegion p ?start ?len) else Some p) = Some p1"
    and b: "(if last_page_moveable l then map_option snd (CopyAndRemapRegion p1 ?start ?len) else Some p1) = Some p2"
    and c: "(if last_page_zero l then map_option snd (RemapToZero p2 ?start ?len) else Some p2) = Some p3"
    and e: "p' = p3"
    unfolding FLUSH_OUTSTANDING_MERGES_def Let_def
    by (auto split: bind_splits if_splits)
  have w1: "window p1 = window p" using a by (auto split: if_splits dest: RemapRegion_window)
  have w2: "window p2 = window p1" using b by (auto split: if_splits dest: CopyAndRemapRegion_window)
  have w3: "window p3 = window p2" using c by (auto split: if_splits dest: RemapToZero_window)
  show ?thesis using w1 w2 w3 e by simp
qed

lemma MergeManyPages_page_window:
  assumes "MergeManyPages_page p l a = Some (l', p')"
  shows "window p' = window p"
proof -
  from assms obtain l1 p1 where
    st1: "(if index_buf l = 0 \<or> index_buf l = 4 * 1024 * 1024 then do {
             let s = (if mmap_buffer l \<noteq> 0 then SH_UNMAP p (mmap_buffer l) MMAP_BUFFER_SIZE else p);
             (buf, s) \<leftarrow> GetSharedRegion s a False MMAP_BUFFER_SIZE;
             Some (l\<lparr>index_buf := 0, mmap_buffer := buf\<rparr>, s)
           } else Some (l, p)) = Some (l1, p1)"
    unfolding MergeManyPages_page_def by (auto split: bind_splits)
  have w1: "window p1 = window p"
    using st1 by (auto simp: Let_def split: if_splits bind_splits dest!: GetSharedRegion_window)
  define l2 where "l2 = l1\<lparr>index_buf := index_buf l1 + ucast (PAGE_SIZE p1)\<rparr>"
  have flush: "\<And>q lx e ly py. window q = window p1 \<Longrightarrow>
      FLUSH_OUTSTANDING_MERGES q lx e = Some (ly, py) \<Longrightarrow> window py = window p1"
    using FLUSH_window by fastforce
  have cmp: "\<And>x y b q. compare_pages p1 x y = (b, q) \<Longrightarrow> window q = window p1"
    using compare_pages_window by blast
  have "window p' = window p1"
    using assms st1 unfolding MergeManyPages_page_def
    apply (simp add: Let_def l2_def [symmetric] split: if_splits bind_splits prod.splits)
    apply (auto dest!: FLUSH_window compare_pages_window)
    done
  then show ?thesis using w1 by simp
qed

lemma MergeManyPages_pages_window:
  "MergeManyPages_pages p l a offs = Some (l', p') \<Longrightarrow> window p' = window p"
proof (induction offs arbitrary: p l)
  case Nil then show ?case by simp
next
  case (Cons off offs)
  then obtain l1 p1 where a: "MergeManyPages_page p l (a + off) = Some (l1, p1)"
    and b: "MergeManyPages_pages p1 l1 a offs = Some (l', p')" by (auto split: bind_splits)
  show ?case using MergeManyPages_page_window [OF a] Cons.IH [OF b] by simp
qed

lemma MergeManyPages_window:
  assumes "MergeManyPages p a n = Some (r, p')"
  shows "window p' = window p"
proof -
  from assms obtain offs l1 p1 l2 where
    a: "MergeManyPages_pages p \<lparr>last_page_zero = False, last_page_moveable = False,
          last_page_shareable = False, mergeable_start_addr = 0, index_buf = 0, mmap_buffer = 0,
          counter_pages_merged = 0\<rparr> a offs = Some (l1, p1)"
    and b: "FLUSH_OUTSTANDING_MERGES
              (if mmap_buffer l1 \<noteq> 0 then SH_UNMAP p1 (mmap_buffer l1) MMAP_BUFFER_SIZE else p1)
              l1 (a + n) = Some (l2, p')"
    unfolding MergeManyPages_def Let_def by (auto split: if_splits bind_splits)
  have "window (if mmap_buffer l1 \<noteq> 0 then SH_UNMAP p1 (mmap_buffer l1) MMAP_BUFFER_SIZE else p1)
        = window p1" by simp
  then show ?thesis using MergeManyPages_pages_window [OF a] FLUSH_window [OF b] by simp
qed

lemma MergeNode2_result:
  assumes "MergeNode2 k v d p = Some (d', p')"
  shows "window p' = window p \<and> d' = 0 \<and> sharedHeapBottom p < k \<and> k < sharedHeapTop p"
proof -
  from assms obtain t where t: "TranslateMmapAddr p k = Some t"
    unfolding MergeNode2_def by (auto split: bind_splits)
  then have in_w: "sharedHeapBottom p < k \<and> k < sharedHeapTop p" and te: "t = k - sharedHeapBottom p"
    by (auto simp: TranslateMmapAddr_def split: if_splits)
  have t0: "t \<noteq> 0" using in_w te by auto
  show ?thesis
  proof (cases "d = 0")
    case True
    then show ?thesis using assms t t0 in_w
      by (simp add: MergeNode2_def IsCloseToMmapLimit_def)
  next
    case False
    then obtain m where "MergeManyPages p k v = Some (m, p')" and "d' = 0"
      using assms t t0 by (auto simp: MergeNode2_def IsCloseToMmapLimit_def split: bind_splits)
    then show ?thesis using MergeManyPages_window in_w by blast
  qed
qed

lemma MergeNode2_clean:
  "sharedHeapBottom p < k \<Longrightarrow> k < sharedHeapTop p \<Longrightarrow> MergeNode2 k v 0 p = Some (0, p)"
  by (simp add: MergeNode2_def TranslateMmapAddr_def IsCloseToMmapLimit_def)

lemma keys_in_window: "window p' = window p \<Longrightarrow> keys_in p' t = keys_in p t"
  by (induction t) (auto simp: window_def)

lemma Traverse_result:
  "Traverse MergeNode2 t p = Some (t', p') \<Longrightarrow>
     window p' = window p \<and> clean t' \<and> keys_in p t'"
proof (induction t arbitrary: p t' p')
  case NullNode
  then show ?case by simp
next
  case (Node l k v h d r)
  from Node.prems obtain l' p1 d' p2 r' where
    a: "Traverse MergeNode2 l p = Some (l', p1)"
    and b: "MergeNode2 k v d p1 = Some (d', p2)"
    and c: "Traverse MergeNode2 r p2 = Some (r', p')"
    and e: "t' = Node l' k v h d' r'"
    by (auto split: bind_splits)
  note A = Node.IH(1) [OF a] and B = MergeNode2_result [OF b] and C = Node.IH(2) [OF c]
  have w: "window p1 = window p" "window p2 = window p" "window p' = window p"
    using A B C by simp_all
  have "keys_in p l'" using A by simp
  moreover have "keys_in p r'" using C keys_in_window [OF w(2), of r'] by simp
  moreover have "sharedHeapBottom p < k \<and> k < sharedHeapTop p"
    using B w(1) by (simp add: window_def)
  ultimately show ?case using A B C e w by simp
qed

lemma Traverse_clean:
  "clean t \<Longrightarrow> keys_in p t \<Longrightarrow> Traverse MergeNode2 t p = Some (t, p)"
  by (induction t) (simp_all add: MergeNode2_clean)

section \<open>Balance of the index (C3)\<close>

lemma six_regions_root:
  "root six_regions =
     Node (Node (Node NullNode 0xa000 4096 1 0 NullNode) 0x14000 4096 2 0
             (Node NullNode 0x19000 4096 1 0 NullNode))
       0x1e000 4096 3 0
       (Node NullNode 0x28000 4096 1 0 (Node NullNode 0x32000 4096 1 0 NullNode))"
  by (simp add: six_regions_def insert_all_def InsertAVL_def CreateAVL_def MyComparator_def Let_def)

text \<open>
  C3.  The claim: after every sequence of InsertAVL and RemoveAVL every stored height is
  the true height of its subtree and the heights of the two subtrees of a node differ by
  at most one.  The code does not keep this.  Inserting the six bases \<open>0x14000, 0xa000,
  0x28000, 0x1e000, 0x32000, 0x19000\<close> into an empty tree ends with a double left
  rotation whose first half, RotateSingleRight, takes both heights from \<open>b\<close>: the node
  \<open>0x28000\<close> keeps the stored height 1 although it has a child.  Removing \<open>0xa000\<close>,
  \<open>0x19000\<close> and \<open>0x14000\<close> then leaves the three remaining regions in a chain, the
  root with an empty left subtree and a right subtree of height 2, which Balance does not
  rotate because it reads the stored height 1.
\<close>

theorem avl_invariant_broken:
  "\<not> avl_inv (root six_regions)
   \<and> root (remove_all six_regions [0xa000, 0x19000, 0x14000]) =
       Node NullNode 0x1e000 4096 2 0
         (Node NullNode 0x28000 4096 1 0 (Node NullNode 0x32000 4096 1 0 NullNode))
   \<and> true_height (right (root (remove_all six_regions [0xa000, 0x19000, 0x14000])))
       - true_height (left (root (remove_all six_regions [0xa000, 0x19000, 0x14000]))) = 2"
  by (simp add: remove_all_def RemoveAVL_def six_regions_root MyComparator_def Let_def)

section \<open>The interval lookup (C5)\<close>

lemma region_ok_end: 
  assumes "region_ok (k, v)" shows "unat (k + v) = unat k + unat v"
  using assms unfolding region_ok_def by (simp add: unat_word_ariths)

lemma covers_alt: "region_ok (k, v) \<Longrightarrow> covers (k, v) a = (unat k \<le> unat a \<and> unat a < unat k + unat v)"
  by (simp add: covers_def word_le_nat_alt word_less_nat_alt region_ok_end)

lemma disjoint_alt: "region_ok r1 \<Longrightarrow> region_ok r2 \<Longrightarrow> 
    disjoint r1 r2 = (unat (fst r1) + unat (snd r1) \<le> unat (fst r2) \<or> unat (fst r2) + unat (snd r2) \<le> unat (fst r1))"
  by (cases r1; cases r2) (simp add: disjoint_def word_le_nat_alt  region_ok_end)

lemma FindRange_step:
  assumes "k < 2 ^ 63" "a < 2 ^ 63"
  shows "FindRange (Node l k v h d r) a =
           (if a < k then FindRange l a
            else if k < a then (if a < k + v then Node l k v h d r else FindRange r a)
            else Node l k v h d r)"
  using assms by (simp add: Let_def MyComparator_lt MyComparator_gt)

lemma pairwise_disjoint_iff:
  "pairwise_disjoint es = (\<forall>r1\<in>set es. \<forall>r2\<in>set es. r1 = r2 \<or> disjoint r1 r2)"
  by (simp add: pairwise_disjoint_def list_all_iff)

lemma FindRange_correct:
  assumes "index_ok t" "pairwise_disjoint (entries t)" "a < 2 ^ 63"
  shows "case FindRange t a of
           NullNode \<Rightarrow> \<forall>r\<in>set (entries t). \<not> covers r a
         | Node l k v h d r \<Rightarrow> (k, v) \<in> set (entries t) \<and> covers (k, v) a"
  using assms
proof (induction t)
  case NullNode
  then show ?case by simp
next
  case (Node l k v h d r)
  have okl: "index_ok l" and okr: "index_ok r" and okn: "region_ok (k, v)"
    using Node.prems(1) by (auto simp: index_ok_def sorted_wrt_append)
  have dl: "pairwise_disjoint (entries l)" and dr: "pairwise_disjoint (entries r)"
    using Node.prems(2) by (auto simp: pairwise_disjoint_iff)
  have k63: "k < 2 ^ 63" using okn by (rule region_ok_base)
  have lless: "\<forall>e\<in>set (entries l). fst e < k" and rgreater: "\<forall>e\<in>set (entries r). k < fst e"
    using Node.prems(1) by (auto simp: index_ok_def sorted_wrt_append)
  have regl: "\<forall>e\<in>set (entries l). region_ok e" and regr: "\<forall>e\<in>set (entries r). region_ok e"
    using Node.prems(1) by (auto simp: index_ok_def list_all_iff)
  have disl: "\<forall>e\<in>set (entries l). disjoint e (k, v)" 
    using Node.prems(2) lless by (fastforce simp: pairwise_disjoint_iff)
  have ihl: "case FindRange l a of
           NullNode \<Rightarrow> \<forall>r\<in>set (entries l). \<not> covers r a
         | Node l' k' v' h' d' r' \<Rightarrow> (k', v') \<in> set (entries l) \<and> covers (k', v') a"
    using Node.IH(1) okl dl Node.prems(3) by blast
  have ihr: "case FindRange r a of
           NullNode \<Rightarrow> \<forall>r'\<in>set (entries r). \<not> covers r' a
         | Node l' k' v' h' d' r' \<Rightarrow> (k', v') \<in> set (entries r) \<and> covers (k', v') a"
    using Node.IH(2) okr dr Node.prems(3) by blast
  have not_right: "a \<le> k \<Longrightarrow> \<forall>e\<in>set (entries r). \<not> covers e a"
  proof
    fix e assume a: "a \<le> k" and e: "e \<in> set (entries r)"
    have "k < fst e" using rgreater e by blast
    then show "\<not> covers e a" using a by (auto simp: covers_def)
  qed
  have not_left: "k \<le> a \<Longrightarrow> \<forall>e\<in>set (entries l). \<not> covers e a"
  proof
    fix e assume a: "k \<le> a" and e: "e \<in> set (entries l)"
    have "fst e < k" using lless e by blast
    moreover have "region_ok e" using regl e by blast
    moreover have "disjoint e (k, v)" using disl e by blast
    ultimately show "\<not> covers e a" using a okn
      by (cases e) (auto simp: covers_alt disjoint_alt word_less_nat_alt word_le_nat_alt region_ok_end)
  qed
  note step = FindRange_step [OF k63 Node.prems(3), of l v h d r]
  show ?case
  proof (cases "a < k")
    case True
    then have nc: "\<not> covers (k, v) a" by (auto simp: covers_def)
    from True have nr: "\<forall>e\<in>set (entries r). \<not> covers e a" using not_right by simp
    have fr: "FindRange (Node l k v h d r) a = FindRange l a"
      using True by (simp only: step if_True)
    show ?thesis unfolding fr using ihl nc nr
      by (auto split: AVLTreeNode.splits)
  next
    case False
    then have ka: "k \<le> a" by simp
    show ?thesis
    proof (cases "k < a")
      case True
      show ?thesis
      proof (cases "a < k + v")
        case True
        have fr: "FindRange (Node l k v h d r) a = Node l k v h d r"
          using True \<open>k < a\<close> \<open>\<not> a < k\<close> by (simp only: step if_True if_False)
        show ?thesis unfolding fr using True ka by (simp add: covers_def)
      next
        case False
        then have nc: "\<not> covers (k, v) a" by (simp add: covers_def)
        have fr: "FindRange (Node l k v h d r) a = FindRange r a"
          using False \<open>k < a\<close> \<open>\<not> a < k\<close> by (simp only: step if_True if_False)
        show ?thesis unfolding fr using ihr nc not_left [OF ka]
          by (auto split: AVLTreeNode.splits)
      qed
    next
      case False
      then have ak: "a = k" using ka by simp
      have fr: "FindRange (Node l k v h d r) a = Node l k v h d r"
        using False \<open>\<not> a < k\<close> by (simp only: step if_True if_False)
      show ?thesis unfolding fr using okn ak
        by (auto simp: covers_alt region_ok_def unat_gt_0 word_greater_zero_iff)
    qed
  qed
qed

lemma covers_unique:
  assumes "region_ok r1" "region_ok r2" "covers r1 a" "covers r2 a" "r1 = r2 \<or> disjoint r1 r2"
  shows "r1 = r2"
proof (rule ccontr)
  assume "r1 \<noteq> r2"
  then have d: "disjoint r1 r2" using assms(5) by simp
  obtain k1 v1 k2 v2 where r: "r1 = (k1, v1)" "r2 = (k2, v2)" by (cases r1; cases r2) blast
  have c1: "unat k1 \<le> unat a \<and> unat a < unat k1 + unat v1"
    using assms(1,3) unfolding r by (simp only: covers_alt)
  have c2: "unat k2 \<le> unat a \<and> unat a < unat k2 + unat v2"
    using assms(2,4) unfolding r by (simp only: covers_alt)
  have "unat k1 + unat v1 \<le> unat k2 \<or> unat k2 + unat v2 \<le> unat k1"
    using d assms(1,2) unfolding r by (simp only: disjoint_alt fst_conv snd_conv)
  then show False using c1 c2 by linarith
qed

text \<open>
  C5.  On an allocation index whose regions are pairwise disjoint, FindRangeAVL applied
  to an address returns the node of the one region whose half-open interval
  \<open>[base, base + size)\<close> covers the address, and null when no region covers it.  The
  search goes left when the address is below the base of the node; otherwise it first
  returns the node when \<open>base + size\<close> exceeds the address (or the address is the base),
  and goes right else.
\<close>

theorem FindRangeAVL_covering:
  assumes "index_ok (root tree)" and "pairwise_disjoint (entries (root tree))" and "a < 2 ^ 63"
  shows "(case FindRangeAVL tree a of
            NullNode \<Rightarrow> list_all (\<lambda>r. \<not> covers r a) (entries (root tree))
          | Node l k v h d r \<Rightarrow>
              (k, v) \<in> set (entries (root tree)) \<and> covers (k, v) a
              \<and> list_all (\<lambda>r'. covers r' a \<longrightarrow> r' = (k, v)) (entries (root tree)))
       \<and> (\<forall>l k v h d r. k < 2 ^ 63 \<longrightarrow>
             FindRange (Node l k v h d r) a =
               (if a < k then FindRange l a
                else if k < a then (if a < k + v then Node l k v h d r else FindRange r a)
                else Node l k v h d r))"
proof (intro conjI allI impI)
  fix l k v h d r
  assume "(k :: 64 word) < 2 ^ 63"
  then show "FindRange (Node l k v h d r) a =
               (if a < k then FindRange l a
                else if k < a then (if a < k + v then Node l k v h d r else FindRange r a)
                else Node l k v h d r)"
    using assms(3) by (rule FindRange_step)
next
  have c: "case FindRange (root tree) a of
             NullNode \<Rightarrow> \<forall>r\<in>set (entries (root tree)). \<not> covers r a
           | Node l k v h d r \<Rightarrow> (k, v) \<in> set (entries (root tree)) \<and> covers (k, v) a"
    using assms by (rule FindRange_correct)
  have reg: "\<forall>e\<in>set (entries (root tree)). region_ok e"
    using assms(1) by (simp add: index_ok_def list_all_iff)
  show "case FindRangeAVL tree a of
            NullNode \<Rightarrow> list_all (\<lambda>r. \<not> covers r a) (entries (root tree))
          | Node l k v h d r \<Rightarrow>
              (k, v) \<in> set (entries (root tree)) \<and> covers (k, v) a
              \<and> list_all (\<lambda>r'. covers r' a \<longrightarrow> r' = (k, v)) (entries (root tree))"
  proof (cases "FindRange (root tree) a")
    case NullNode
    then have "\<forall>r\<in>set (entries (root tree)). \<not> covers r a"
      using c by (simp only: AVLTreeNode.case)
    then have "list_all (\<lambda>r. \<not> covers r a) (entries (root tree))"
      by (simp only: list_all_iff)
    then show ?thesis
      unfolding FindRangeAVL_def NullNode by (simp only: AVLTreeNode.case)
  next
    case (Node l k v h d r)
    then have kvc: "(k, v) \<in> set (entries (root tree)) \<and> covers (k, v) a"
      using c by (simp only: AVLTreeNode.case)
    then have kv: "(k, v) \<in> set (entries (root tree))" and cov: "covers (k, v) a"
      by blast+
    have uniq: "\<forall>r'\<in>set (entries (root tree)). covers r' a \<longrightarrow> r' = (k, v)"
    proof (intro ballI impI)
      fix r' assume r': "r' \<in> set (entries (root tree))" and cr: "covers r' a"
      have d: "r' = (k, v) \<or> disjoint r' (k, v)"
        using assms(2) r' kv unfolding pairwise_disjoint_iff by blast
      have "region_ok r'" using reg r' by blast
      moreover have "region_ok (k, v)" using reg kv by blast
      ultimately show "r' = (k, v)" using cr cov d by (rule covers_unique)
    qed
    have "list_all (\<lambda>r'. covers r' a \<longrightarrow> r' = (k, v)) (entries (root tree))"
      using uniq by (simp only: list_all_iff)
    with kv cov show ?thesis
      unfolding FindRangeAVL_def Node by (simp only: AVLTreeNode.case simp_thms)
  qed
qed

lemma six_regions_ok:
  "index_ok (root six_regions) \<and> pairwise_disjoint (entries (root six_regions))"
  by (simp add: six_regions_root index_ok_def pairwise_disjoint_def region_ok_def disjoint_def)

lemma six_regions_find:
  "FindRangeAVL six_regions 0x28010 =
       Node NullNode 0x28000 4096 1 0 (Node NullNode 0x32000 4096 1 0 NullNode)
   \<and> FindRangeAVL six_regions 0x50000 = NullNode"
  by (simp add: six_regions_root FindRangeAVL_def MyComparator_def Let_def)

theorem FindRangeAVL_covering_witness:
  "index_ok (root six_regions) \<and> pairwise_disjoint (entries (root six_regions))
   \<and> (0x28010 :: 64 word) < 2 ^ 63
   \<and> FindRangeAVL six_regions 0x28010 =
       Node NullNode 0x28000 4096 1 0 (Node NullNode 0x32000 4096 1 0 NullNode)
   \<and> covers (0x28000, 4096) 0x28010
   \<and> FindRangeAVL six_regions 0x50000 = NullNode"
proof -
  have ok: "index_ok (root six_regions)" and dj: "pairwise_disjoint (entries (root six_regions))"
    using six_regions_ok by blast+
  have lt: "(0x28010 :: 64 word) < 2 ^ 63" by simp
  have "case FindRangeAVL six_regions 0x28010 of
            NullNode \<Rightarrow> list_all (\<lambda>r. \<not> covers r 0x28010) (entries (root six_regions))
          | Node l k v h d r \<Rightarrow>
              (k, v) \<in> set (entries (root six_regions)) \<and> covers (k, v) 0x28010
              \<and> list_all (\<lambda>r'. covers r' 0x28010 \<longrightarrow> r' = (k, v)) (entries (root six_regions))"
    using FindRangeAVL_covering [OF ok dj lt] by blast
  then have "covers (0x28000, 4096) 0x28010"
    by (simp only: six_regions_find AVLTreeNode.case)
  then show ?thesis using ok dj lt six_regions_find by blast
qed

section \<open>Entry points before initialisation (C10)\<close>

text \<open>
  C10.  While the MPI init hook has not run and the not-an-MPI-app flag is unset, every
  public entry point returns its sentinel and leaves the whole state as it was:
  ShmFreeWrapper \<open>-1\<close>, ShmGetSizeWrapper \<open>0\<close>, ShmReallocWrapper null and
  ShmMallocWrapper null, whatever the arguments.
\<close>

theorem entry_points_before_init:
  assumes "\<not> isMPIInitialized s" and "notMPIApp s = 0"
  shows "ShmFreeWrapper s ptr = Some (- 1, s) \<and> ShmGetSizeWrapper s ptr = 0
       \<and> ShmReallocWrapper s ptr n = Some (0, s) \<and> ShmMallocWrapper s n = Some (0, s)"
  using assms
  by (simp add: ShmFreeWrapper_def ShmGetSizeWrapper_def ShmReallocWrapper_def
      ShmMallocWrapper_def CheckMPIInitialized_def)

theorem entry_points_before_init_witness:
  "\<not> isMPIInitialized (startup (answers [])) \<and> notMPIApp (startup (answers [])) = 0
   \<and> ShmFreeWrapper (startup (answers [])) 0x7ffff7a00000 = Some (- 1, startup (answers []))
   \<and> ShmGetSizeWrapper (startup (answers [])) 0x7ffff7a00000 = 0
   \<and> ShmReallocWrapper (startup (answers [])) 0x7ffff7a00000 8192 = Some (0, startup (answers []))
   \<and> ShmMallocWrapper (startup (answers [])) 8192 = Some (0, startup (answers []))"
  using entry_points_before_init [of "startup (answers [])" "0x7ffff7a00000" 8192]
  by (simp add: startup_def)

section \<open>The threshold policy (C6)\<close>
























section \<open>Joining the node (C4)\<close>

text \<open>
  C4, as claimed: the layer refuses to run when more siblings join than the holder entry
  is wide, and joining never hands out a bit position outside the entry.  The code has
  no such check.  On a node with eight cores (entries of 8 bits) where eight siblings
  have joined, the ninth \<open>MPI_Init\<close> succeeds with rank 8 and the mask \<open>0x100\<close>; the
  bit it then sets in a holder entry falls outside the \<open>uint8_t\<close> and reads back as
  clear.
\<close>

theorem ninth_sibling_joins:
  "case MPI_Init (startup k0) host9 of
     None \<Rightarrow> False
   | Some s \<Rightarrow>
       numProc (pg s) = 8 \<and> aliveProcs (pg s) = 9 \<and> myRank (pg s) = 8 \<and> currProcMask (pg s) = 0x100
       \<and> (case SetSharingBit (pg s) 0x7ffff7a00000 of
             None \<Rightarrow> False
           | Some p \<Rightarrow> GetSharingBit p 0x7ffff7a00000 = Some False)"
  by (simp add: init_defs host9_def SetSharingBit_def GetSharingBit_def Addr2PageIndex_def
      TranslateMmapAddr_def load_entry_def store_entry_def)

lemma AllocateSharedMetadata_join:
  "AllocateSharedMetadata p h = Some p' \<Longrightarrow>
     numProc p' = numProc p
     \<and> myRank p' = (if h_shm_open h = Created then 0 else h_aliveProcs h)
     \<and> aliveProcs p' = myRank p' + 1
     \<and> 0 \<le>s myRank p' \<and> myRank p' <s 32
     \<and> currProcMask p' = scast (push_bit (nat (sint (myRank p'))) (1 :: 32 word))"
  unfolding AllocateSharedMetadata_def Let_def SH_MMAP_def MakeReadOnlyWrapper_def sys_mprotect_def
  by (auto split: if_splits prod.splits)

lemma AllocateSharedMetadata_None_iff:
  "(AllocateSharedMetadata p h = None) =
     (h_shm_open h = OpenFailed \<or> kernel p (tick p) = MAP_FAILED
      \<or> kernel p (tick p + 1) = MAP_FAILED \<or> kernel p (tick p + 2) = MAP_FAILED
      \<or> (h_shm_open h \<noteq> Created \<and> \<not> (0 \<le>s h_aliveProcs h \<and> h_aliveProcs h <s 32)))"
  unfolding AllocateSharedMetadata_def Let_def SH_MMAP_def MakeReadOnlyWrapper_def sys_mprotect_def
  by (auto simp: word_sle_eq word_sless_alt split: if_splits prod.splits)

lemma AllocateSharedMetadata_any_count:
  assumes "0 \<le>s n \<and> n <s 32" "0 \<le>s m \<and> m <s 32"
  shows "(AllocateSharedMetadata p (h\<lparr>h_aliveProcs := n\<rparr>) = None)
       = (AllocateSharedMetadata p (h\<lparr>h_aliveProcs := m\<rparr>) = None)"
  unfolding AllocateSharedMetadata_None_iff using assms by simp

lemma InitEnv_count: "InitEnv s (h\<lparr>h_aliveProcs := n\<rparr>) = InitEnv s h"
  by (simp add: InitEnv_def)

lemma InitAddrSpace_rank:
  assumes "InitAddrSpace s h = Some s'"
  shows "numProc (pg s') = (if h_cores h \<le>s 8 then 8 else 16)
         \<and> myRank (pg s') = (if h_shm_open h = Created then 0 else h_aliveProcs h)
         \<and> aliveProcs (pg s') = myRank (pg s') + 1
         \<and> 0 \<le>s myRank (pg s') \<and> myRank (pg s') <s 32
         \<and> currProcMask (pg s') = scast (push_bit (nat (sint (myRank (pg s')))) (1 :: 32 word))"
proof -
  from assms obtain s1 n p1 where
    n: "(if h_cores h \<le>s 8 then Some 8 else if h_cores h \<le>s 16 then Some 16 else None) = Some n"
    and j: "AllocateSharedMetadata ((pg (s1\<lparr>allocRecord := Some CreateAVL\<rparr>))\<lparr>numProc := n\<rparr>) h = Some p1"
    and s': "s' = (s1\<lparr>allocRecord := Some CreateAVL\<rparr>)\<lparr>pg := p1\<lparr>initializedPagesBV := (\<lambda>_. 0), zeroPagesBV := (\<lambda>_. 0)\<rparr>\<rparr>"
    unfolding InitAddrSpace_def Let_def
    by (simp split: if_splits bind_splits)
  from n have nn: "n = (if h_cores h \<le>s 8 then 8 else 16)"
    by (auto split: if_splits)
  have pg: "pg s' = p1\<lparr>initializedPagesBV := (\<lambda>_. 0), zeroPagesBV := (\<lambda>_. 0)\<rparr>"
    unfolding s' by simp
  have f: "numProc (pg s') = numProc p1" "myRank (pg s') = myRank p1"
    "aliveProcs (pg s') = aliveProcs p1" "currProcMask (pg s') = currProcMask p1"
    unfolding pg by simp_all
  have np: "numProc p1 = (if h_cores h \<le>s 8 then 8 else 16)"
    using AllocateSharedMetadata_join [OF j] nn by simp
  have rest: "myRank p1 = (if h_shm_open h = Created then 0 else h_aliveProcs h)
     \<and> aliveProcs p1 = myRank p1 + 1
     \<and> 0 \<le>s myRank p1 \<and> myRank p1 <s 32
     \<and> currProcMask p1 = scast (push_bit (nat (sint (myRank p1))) (1 :: 32 word))"
    using AllocateSharedMetadata_join [OF j] by blast
  show ?thesis unfolding f using np rest by blast
qed

lemma InitAddrSpace_None_iff:
  "(InitAddrSpace s h = None) =
     (\<not> (0 <s h_page_size h \<and> h_page_size h \<le>s push_bit 20 1)
      \<or> (case InitEnv (s\<lparr>pg := (pg s)\<lparr>PAGE_SIZE := scast (h_page_size h),
                        log2PAGE_SIZE := nat (CeilLog2 (scast (h_page_size h)))\<rparr>\<rparr>) h of
            None \<Rightarrow> True
          | Some s1 \<Rightarrow>
              \<not> h_cores h \<le>s 16
              \<or> AllocateSharedMetadata ((pg s1)\<lparr>numProc := (if h_cores h \<le>s 8 then 8 else 16)\<rparr>) h = None))"
  unfolding InitAddrSpace_def Let_def
  by (simp add: word_sle_eq split: option.splits bind_splits)

lemma InitAddrSpace_any_count:
  assumes "0 \<le>s n \<and> n <s 32" "0 \<le>s m \<and> m <s 32"
  shows "(InitAddrSpace s (h\<lparr>h_aliveProcs := n\<rparr>) = None)
       = (InitAddrSpace s (h\<lparr>h_aliveProcs := m\<rparr>) = None)"
  unfolding InitAddrSpace_None_iff
  by (simp add: InitEnv_count AllocateSharedMetadata_any_count [OF assms] cong: option.case_cong)

text \<open>
  C4, as the code has it.  InitAddrSpace is refused when more than 16 processors are
  online; when it succeeds the holder entries are 8 bits wide for up to eight
  processors and 16 bits wide otherwise.  A sibling that creates the backing file
  takes rank 0; one that finds the file takes the value of the file's alive counter as
  rank, whatever the width, and leaves the counter at rank + 1.  The rank lies between
  0 and 31 and the mask is the \<open>int\<close> \<open>1 << rank\<close> converted to \<open>unsigned long\<close>.  For
  any two values of the alive counter between 0 and 31 initialisation is refused for
  the one exactly when it is refused for the other: nothing compares the counter with
  the width.
\<close>

theorem join_rank:
  "(\<not> h_cores h \<le>s 16 \<longrightarrow> InitAddrSpace s h = None)
   \<and> (\<forall>s'. InitAddrSpace s h = Some s' \<longrightarrow>
         numProc (pg s') = (if h_cores h \<le>s 8 then 8 else 16)
         \<and> myRank (pg s') = (if h_shm_open h = Created then 0 else h_aliveProcs h)
         \<and> aliveProcs (pg s') = myRank (pg s') + 1
         \<and> 0 \<le>s myRank (pg s') \<and> myRank (pg s') <s 32
         \<and> currProcMask (pg s') = scast (push_bit (nat (sint (myRank (pg s')))) (1 :: 32 word)))
   \<and> (\<forall>n m. 0 \<le>s n \<and> n <s 32 \<and> 0 \<le>s m \<and> m <s 32 \<longrightarrow>
         (InitAddrSpace s (h\<lparr>h_aliveProcs := n\<rparr>) = None)
         = (InitAddrSpace s (h\<lparr>h_aliveProcs := m\<rparr>) = None))"
proof -
  have refuse: "\<not> h_cores h \<le>s 16 \<longrightarrow> InitAddrSpace s h = None"
    unfolding InitAddrSpace_None_iff by (simp split: option.splits)
  have rank: "\<forall>s'. InitAddrSpace s h = Some s' \<longrightarrow>
         numProc (pg s') = (if h_cores h \<le>s 8 then 8 else 16)
         \<and> myRank (pg s') = (if h_shm_open h = Created then 0 else h_aliveProcs h)
         \<and> aliveProcs (pg s') = myRank (pg s') + 1
         \<and> 0 \<le>s myRank (pg s') \<and> myRank (pg s') <s 32
         \<and> currProcMask (pg s') = scast (push_bit (nat (sint (myRank (pg s')))) (1 :: 32 word))"
    using InitAddrSpace_rank by blast
  have any: "\<forall>n m. 0 \<le>s n \<and> n <s 32 \<and> 0 \<le>s m \<and> m <s 32 \<longrightarrow>
         (InitAddrSpace s (h\<lparr>h_aliveProcs := n\<rparr>) = None)
         = (InitAddrSpace s (h\<lparr>h_aliveProcs := m\<rparr>) = None)"
    using InitAddrSpace_any_count by blast
  show ?thesis using refuse rank any by blast
qed

theorem join_rank_witness:
  "InitAddrSpace ((startup k0)\<lparr>pg := Init_Heap_Boundary (pg (startup k0))\<rparr>) host0 \<noteq> None
   \<and> numProc (pg ready) = 8 \<and> myRank (pg ready) = 0 \<and> aliveProcs (pg ready) = 1
   \<and> currProcMask (pg ready) = 1
   \<and> \<not> h_cores (host0\<lparr>h_cores := 17\<rparr>) \<le>s 16
   \<and> InitAddrSpace (startup k0) (host0\<lparr>h_cores := 17\<rparr>) = None
   \<and> (0 :: 32 word) \<le>s 8 \<and> (8 :: 32 word) <s 32 \<and> (0 :: 32 word) \<le>s 1 \<and> (1 :: 32 word) <s 32
   \<and> InitAddrSpace ((startup k0)\<lparr>pg := Init_Heap_Boundary (pg (startup k0))\<rparr>)
        (host9\<lparr>h_aliveProcs := 1\<rparr>) \<noteq> None
   \<and> InitAddrSpace ((startup k0)\<lparr>pg := Init_Heap_Boundary (pg (startup k0))\<rparr>)
        (host9\<lparr>h_aliveProcs := 8\<rparr>) \<noteq> None"
proof -
  let ?s = "(startup k0)\<lparr>pg := Init_Heap_Boundary (pg (startup k0))\<rparr>"
  obtain s1 where i: "InitAddrSpace ?s host0 = Some s1"
    and r: "ready = s1\<lparr>isMPIInitialized := True\<rparr>"
    using ready_run unfolding MPI_Init_def by (auto split: bind_splits)
  have c: "h_cores host0 \<le>s 8" and sh: "h_shm_open host0 = Created"
    by (simp_all add: host0_def word_sle_eq)
  from join_rank [of host0 ?s, THEN conjunct2, THEN conjunct1, rule_format, OF i]
  have "numProc (pg ready) = 8 \<and> myRank (pg ready) = 0 \<and> aliveProcs (pg ready) = 1
        \<and> currProcMask (pg ready) = 1"
    unfolding r using c sh by simp
  moreover have n17: "\<not> h_cores (host0\<lparr>h_cores := 17\<rparr>) \<le>s 16"
    by (simp add: word_sle_eq)
  moreover from join_rank [of "host0\<lparr>h_cores := 17\<rparr>" "startup k0", THEN conjunct1] n17
  have "InitAddrSpace (startup k0) (host0\<lparr>h_cores := 17\<rparr>) = None" by blast
  moreover have rg: "(0 :: 32 word) \<le>s 8 \<and> (8 :: 32 word) <s 32 \<and> (0 :: 32 word) \<le>s 1 \<and> (1 :: 32 word) <s 32"
    by (simp add: word_sle_eq word_sless_alt)
  moreover have one: "InitAddrSpace ?s (host9\<lparr>h_aliveProcs := 1\<rparr>) \<noteq> None"
    by (simp add: init_defs host9_def)
  moreover have "InitAddrSpace ?s (host9\<lparr>h_aliveProcs := 8\<rparr>) \<noteq> None"
    using join_rank [of host9 ?s, THEN conjunct2, THEN conjunct2, rule_format, of 8 1] rg one
    by blast
  ultimately show ?thesis using i by simp
qed

section \<open>What free returns (C1)\<close>

text \<open>
  C1 as stated (free returns zero once the region is released): after initialisation
  and one allocation of two pages, releasing that allocation returns 1, not 0.
\<close>

theorem free_returns_one:
  "ShmMallocWrapper ready 8192 = Some (0x7ffff7a00000, one_region)
   \<and> map_option fst (ShmFreeWrapper one_region 0x7ffff7a00000) = Some 1
   \<and> map_option fst (ShmFreeWrapper one_region 0x7ffff7a00000) \<noteq> Some 0"
proof -
  have "\<exists>s'. ShmFreeWrapper one_region 0x7ffff7a00000 = Some (1, s')"
    by (simp add: ShmFreeWrapper_def CheckMPIInitialized_def one_region_fields AspaceAvlRemoveWrapper_def
     RemoveAVL_def Let_def MyComparator_def SH_UNMAP_def int_page_offsets_def page_offsets_def
     MERGE_DISABLED_def ResetAndReturnBit_def Addr2PageIndex_def TranslateMmapAddr_def bit_mask_def
     upt_conv_Cons)
  then obtain s' where e: "ShmFreeWrapper one_region 0x7ffff7a00000 = Some (1, s')" by blast
  show ?thesis using one_region_run by (simp add: e)
qed

text \<open>
  C1, amended.  ShmFreeWrapper returns \<open>-1\<close> and leaves the state as it was when
  the layer is not initialised or has no index, and returns \<open>-1\<close> when the address is
  not the base of a region recorded in the index.  For the base of a region recorded in
  an allocation index (bases ascending, regions non-empty and below \<open>2^63\<close>) it
  returns \<open>1\<close>, provided the region lies in the heap and its size, rounded up to
  whole pages, is at most \<open>INT_MAX\<close>; beyond \<open>INT_MAX\<close> the \<open>int\<close> that counts the
  pages overflows and the call has no result.  No call returns anything but \<open>1\<close> or
  \<open>-1\<close>, and with an allocation index \<open>1\<close> is returned exactly for a recorded base
  after initialisation.
\<close>

theorem ShmFreeWrapper_returns:
  "(\<not> CheckMPIInitialized s \<or> allocRecord s = None \<longrightarrow> ShmFreeWrapper s ptr = Some (- 1, s))
   \<and> (\<forall>tree. CheckMPIInitialized s \<and> allocRecord s = Some tree
               \<and> ptr \<notin> fst ` set (entries (root tree))
         \<longrightarrow> (\<exists>s'. ShmFreeWrapper s ptr = Some (- 1, s')))
   \<and> (\<forall>tree len. CheckMPIInitialized s \<and> allocRecord s = Some tree \<and> index_ok (root tree)
                   \<and> (ptr, len) \<in> set (entries (root tree))
                   \<and> in_heap (pg s) ptr len \<and> fits_int (pg s) len
         \<longrightarrow> (\<exists>s'. ShmFreeWrapper s ptr = Some (1, s')))
   \<and> (\<forall>tree len. CheckMPIInitialized s \<and> allocRecord s = Some tree \<and> index_ok (root tree)
                   \<and> (ptr, len) \<in> set (entries (root tree)) \<and> \<not> fits_int (pg s) len
         \<longrightarrow> ShmFreeWrapper s ptr = None)
   \<and> (\<forall>r s'. ShmFreeWrapper s ptr = Some (r, s') \<longrightarrow> r = 1 \<or> r = - 1)
   \<and> (\<forall>tree r s'. allocRecord s = Some tree \<and> index_ok (root tree)
                    \<and> ShmFreeWrapper s ptr = Some (r, s')
         \<longrightarrow> (r = 1) = (CheckMPIInitialized s \<and> ptr \<in> fst ` set (entries (root tree))))"
proof -
  have present: "Find (root tree) ptr = len \<and> 0 < sint len"
    if "index_ok (root tree)" "(ptr, len) \<in> set (entries (root tree))" for tree len
  proof -
    have r: "region_ok (ptr, len)" using that by (rule index_ok_regions)
    then have "ptr < 2 ^ 63" by (rule region_ok_base)
    with that(1) have "Find (root tree) ptr = len" using that(2) by (rule Find_present)
    moreover have "0 < sint len" using r by (rule region_ok_size_pos)
    ultimately show ?thesis by simp
  qed
  have c1: "\<not> CheckMPIInitialized s \<or> allocRecord s = None
        \<longrightarrow> ShmFreeWrapper s ptr = Some (- 1, s)"
    using ShmFreeWrapper_no_index [of s ptr] by (auto simp: ShmFreeWrapper_def)
  have c2: "\<forall>tree. CheckMPIInitialized s \<and> allocRecord s = Some tree
               \<and> ptr \<notin> fst ` set (entries (root tree))
         \<longrightarrow> (\<exists>s'. ShmFreeWrapper s ptr = Some (- 1, s'))"
  proof (intro allI impI)
    fix tree
    assume a: "CheckMPIInitialized s \<and> allocRecord s = Some tree
               \<and> ptr \<notin> fst ` set (entries (root tree))"
    then have i: "CheckMPIInitialized s" and rec: "allocRecord s = Some tree"
      and f: "Find (root tree) ptr = 0"
      using Find_absent [of ptr "root tree"] by simp_all
    show "\<exists>s'. ShmFreeWrapper s ptr = Some (- 1, s')"
      unfolding ShmFreeWrapper_init [OF i rec] Let_def f by simp
  qed
  have c3: "\<forall>tree len. CheckMPIInitialized s \<and> allocRecord s = Some tree \<and> index_ok (root tree)
                   \<and> (ptr, len) \<in> set (entries (root tree))
                   \<and> in_heap (pg s) ptr len \<and> fits_int (pg s) len
         \<longrightarrow> (\<exists>s'. ShmFreeWrapper s ptr = Some (1, s'))"
  proof (intro allI impI)
    fix tree len
    assume a: "CheckMPIInitialized s \<and> allocRecord s = Some tree \<and> index_ok (root tree)
                   \<and> (ptr, len) \<in> set (entries (root tree))
                   \<and> in_heap (pg s) ptr len \<and> fits_int (pg s) len"
    then have i: "CheckMPIInitialized s" and rec: "allocRecord s = Some tree"
      and ok: "index_ok (root tree)" and m: "(ptr, len) \<in> set (entries (root tree))"
      and h: "in_heap (pg s) ptr len" and fi: "fits_int (pg s) len" by simp_all
    have f: "Find (root tree) ptr = len" and pos: "0 < sint len"
      using present [OF ok m] by simp_all
    show "\<exists>s'. ShmFreeWrapper s ptr = Some (1, s')"
      using ShmFreeWrapper_total [OF i rec, of ptr, unfolded f] pos h fi by blast
  qed
  have c4: "\<forall>tree len. CheckMPIInitialized s \<and> allocRecord s = Some tree \<and> index_ok (root tree)
                   \<and> (ptr, len) \<in> set (entries (root tree)) \<and> \<not> fits_int (pg s) len
         \<longrightarrow> ShmFreeWrapper s ptr = None"
  proof (intro allI impI)
    fix tree len
    assume a: "CheckMPIInitialized s \<and> allocRecord s = Some tree \<and> index_ok (root tree)
                   \<and> (ptr, len) \<in> set (entries (root tree)) \<and> \<not> fits_int (pg s) len"
    then have i: "CheckMPIInitialized s" and rec: "allocRecord s = Some tree"
      and ok: "index_ok (root tree)" and m: "(ptr, len) \<in> set (entries (root tree))"
      and big: "\<not> fits_int (pg s) len" by simp_all
    have f: "Find (root tree) ptr = len" and pos: "0 < sint len"
      using present [OF ok m] by simp_all
    show "ShmFreeWrapper s ptr = None"
      using ShmFreeWrapper_overflow [OF i rec, of ptr, unfolded f] pos big by blast
  qed
  have c5: "\<forall>r s'. ShmFreeWrapper s ptr = Some (r, s') \<longrightarrow> r = 1 \<or> r = - 1"
    using ShmFreeWrapper_values by blast
  have c6: "\<forall>tree r s'. allocRecord s = Some tree \<and> index_ok (root tree)
                    \<and> ShmFreeWrapper s ptr = Some (r, s')
         \<longrightarrow> (r = 1) = (CheckMPIInitialized s \<and> ptr \<in> fst ` set (entries (root tree)))"
  proof (intro allI impI)
    fix tree r s'
    assume a: "allocRecord s = Some tree \<and> index_ok (root tree)
                    \<and> ShmFreeWrapper s ptr = Some (r, s')"
    then have rec: "allocRecord s = Some tree" and ok: "index_ok (root tree)"
      and run: "ShmFreeWrapper s ptr = Some (r, s')" by simp_all
    show "(r = 1) = (CheckMPIInitialized s \<and> ptr \<in> fst ` set (entries (root tree)))"
    proof (cases "CheckMPIInitialized s")
      case False
      then show ?thesis using run c1 by simp
    next
      case True
      note res = ShmFreeWrapper_result [OF True rec run]
      show ?thesis
      proof (cases "ptr \<in> fst ` set (entries (root tree))")
        case False
        then show ?thesis using res Find_absent [of ptr "root tree"] True by simp
      next
        case in_index: True
        then obtain len where "(ptr, len) \<in> set (entries (root tree))" by force
        then have "0 < sint (Find (root tree) ptr)" using present [OF ok] by simp
        then show ?thesis using res True in_index by simp
      qed
    qed
  qed
  show ?thesis using c1 c2 c3 c4 c5 c6 by blast
qed

theorem ShmFreeWrapper_returns_witness:
  "allocRecord one_region = Some \<lparr>root = Node NullNode 0x7ffff7a00000 8192 1 0 NullNode, size_avl = 1\<rparr>
   \<and> index_ok (Node NullNode 0x7ffff7a00000 8192 1 0 NullNode)
   \<and> CheckMPIInitialized one_region
   \<and> in_heap (pg one_region) 0x7ffff7a00000 8192 \<and> fits_int (pg one_region) 8192
   \<and> (\<exists>s'. ShmFreeWrapper one_region 0x7ffff7a00000 = Some (1, s'))
   \<and> (\<exists>s'. ShmFreeWrapper one_region 0x7ffff7a01000 = Some (- 1, s'))
   \<and> \<not> CheckMPIInitialized (startup k0)
   \<and> ShmFreeWrapper (startup k0) 0x7ffff7a00000 = Some (- 1, startup k0)"
proof -
  let ?t = "\<lparr>root = Node NullNode 0x7ffff7a00000 8192 1 0 NullNode, size_avl = 1\<rparr>"
  have rec: "allocRecord one_region = Some ?t" by (rule one_region_fields)
  have ok: "index_ok (root ?t)" by (simp add: index_ok_def region_ok_def)
  have init: "CheckMPIInitialized one_region" by (simp add: CheckMPIInitialized_def one_region_fields)
  have heap: "in_heap (pg one_region) 0x7ffff7a00000 8192"
    by (simp add: in_heap_def one_region_fields)
  have fits: "fits_int (pg one_region) 8192"
    by (simp add: fits_int_def one_region_fields)
  have m: "(0x7ffff7a00000, 8192) \<in> set (entries (root ?t))" by simp
  have n: "0x7ffff7a01000 \<notin> fst ` set (entries (root ?t))" by simp
  have u: "\<not> CheckMPIInitialized (startup k0)" by (simp add: CheckMPIInitialized_def startup_def)
  note t0 = ShmFreeWrapper_returns [of "startup k0" "0x7ffff7a00000", THEN conjunct1]
  note t1 = ShmFreeWrapper_returns [of one_region "0x7ffff7a00000", THEN conjunct2, THEN conjunct2,
     THEN conjunct1, rule_format, of ?t 8192]
  note t2 = ShmFreeWrapper_returns [of one_region "0x7ffff7a01000", THEN conjunct2, THEN conjunct1,
     rule_format, of ?t]
  have r0: "ShmFreeWrapper (startup k0) 0x7ffff7a00000 = Some (- 1, startup k0)"
    using t0 u by blast
  have r1: "\<exists>s'. ShmFreeWrapper one_region 0x7ffff7a00000 = Some (1, s')"
    using init rec ok m heap fits by (intro t1) blast
  have r2: "\<exists>s'. ShmFreeWrapper one_region 0x7ffff7a01000 = Some (- 1, s')"
    using init rec n by (intro t2) blast
  show ?thesis using rec ok init heap fits r1 r2 u r0 by simp
qed

section \<open>A merge batch that is cut short (C2)\<close>

lemma cold1_all:
  "case run cold [Alloc 8192, Store 0x7ffff7a00000, Store 0x7ffff7a01000] of
     None \<Rightarrow> False
   | Some s \<Rightarrow>
       isMPIInitialized s \<and> \<not> isMPIFinalized s \<and> notMPIApp s = 0 \<and> mergeMetric s = 2
     \<and> mergeMinMemTh s = 2440 \<and> countDownTimer s = 98
     \<and> allocRecord s = Some \<lparr>root = Node NullNode 0x7ffff7a00000 8192 1 1 NullNode, size_avl = 1\<rparr>
     \<and> PAGE_SIZE (pg s) = 4096 \<and> log2PAGE_SIZE (pg s) = 12
     \<and> sharedHeapBottom (pg s) = 0x7fff37ff9000 \<and> sharedHeapTop (pg s) = 0x7ffff7ff9000
     \<and> numProc (pg s) = 8 \<and> currProcMask (pg s) = 1
     \<and> currProcMaskInverted (pg s) = - 2 \<and> sharingProcessesInfo (pg s) = Some (\<lambda>_. 0)
     \<and> aliveProcs (pg s) = 1 \<and> sharedPageCount (pg s) = 1 \<and> allProcPrivatePageCount (pg s) = 194
     \<and> baseCaseTotalPageCount (pg s) = 2
     \<and> zeroPagesBV (pg s) = (\<lambda>_. 0) \<and> zeroPageCount (pg s) = 0 \<and> mmapCount (pg s) = 4
     \<and> kernel (pg s) = answers ([0x7ffff7ff8000, 0x7ffff7ff7000, 0x7ffff7ff6000,
       0x7ffff7c00000, 0x7ffff7bff000] @ [0x7ffff7a00000, 0, 0x7ffff7400000, 0, 0, 0x7ffff7a00000])
     \<and> tick (pg s) = 7
     \<and> vmap (pg s) 0x7ffff7a00000 = Some (Anon PROT_READ_WRITE)
     \<and> vmap (pg s) 0x7ffff7a01000 = Some (Anon PROT_READ_WRITE)
     \<and> siblings s = (\<lambda>_. (0, 0)) \<and> races s = 0"
  by (simp add: cold_def call_defs boot_fields app_store_def write_fault.simps writable_def handler_defs)

lemma cold1_run: "run cold [Alloc 8192, Store 0x7ffff7a00000, Store 0x7ffff7a01000] = Some cold1"
  using cold1_all unfolding cold1_def by (auto split: option.splits)

lemma cold1_fields:
  "isMPIInitialized cold1" "\<not> isMPIFinalized cold1" "notMPIApp cold1 = 0" "mergeMetric cold1 = 2"
  "mergeMinMemTh cold1 = 2440" "countDownTimer cold1 = 98"
  "allocRecord cold1 = Some \<lparr>root = Node NullNode 0x7ffff7a00000 8192 1 1 NullNode, size_avl = 1\<rparr>"
  "PAGE_SIZE (pg cold1) = 4096" "log2PAGE_SIZE (pg cold1) = 12"
  "sharedHeapBottom (pg cold1) = 0x7fff37ff9000" "sharedHeapTop (pg cold1) = 0x7ffff7ff9000"
  "numProc (pg cold1) = 8" "currProcMask (pg cold1) = 1"
  "currProcMaskInverted (pg cold1) = - 2" "sharingProcessesInfo (pg cold1) = Some (\<lambda>_. 0)"
  "aliveProcs (pg cold1) = 1" "sharedPageCount (pg cold1) = 1" "allProcPrivatePageCount (pg cold1) = 194"
  "baseCaseTotalPageCount (pg cold1) = 2"
  "zeroPagesBV (pg cold1) = (\<lambda>_. 0)" "zeroPageCount (pg cold1) = 0" "mmapCount (pg cold1) = 4"
  "kernel (pg cold1) = answers ([0x7ffff7ff8000, 0x7ffff7ff7000, 0x7ffff7ff6000,
       0x7ffff7c00000, 0x7ffff7bff000] @ [0x7ffff7a00000, 0, 0x7ffff7400000, 0, 0, 0x7ffff7a00000])"
  "tick (pg cold1) = 7"
  "vmap (pg cold1) 0x7ffff7a00000 = Some (Anon PROT_READ_WRITE)"
  "vmap (pg cold1) 0x7ffff7a01000 = Some (Anon PROT_READ_WRITE)"
  "siblings cold1 = (\<lambda>_. (0, 0))" "races cold1 = 0"
  using cold1_all unfolding cold1_run by simp_all

lemma cold1_bits:
  "initializedPagesBV (pg cold1) 98112 = 128" "initializedPagesBV (pg cold1) 98113 = 1"
proof -
  have "case run cold [Alloc 8192, Store 0x7ffff7a00000, Store 0x7ffff7a01000] of
     None \<Rightarrow> False
   | Some s \<Rightarrow> initializedPagesBV (pg s) 98112 = 128 \<and> initializedPagesBV (pg s) 98113 = 1"
    by (simp add: cold_def call_defs boot_fields app_store_def write_fault.simps writable_def handler_defs)
  then show "initializedPagesBV (pg cold1) 98112 = 128" "initializedPagesBV (pg cold1) 98113 = 1"
    unfolding cold1_run by simp_all
qed

lemma cold2_all:
  "case TraverseAVL cold1 of
     None \<Rightarrow> False
   | Some s \<Rightarrow>
       isMPIInitialized s \<and> \<not> isMPIFinalized s \<and> notMPIApp s = 0 \<and> mergeMetric s = 2
     \<and> mergeMinMemTh s = 2440 \<and> countDownTimer s = 98
     \<and> allocRecord s = Some \<lparr>root = Node NullNode 0x7ffff7a00000 8192 1 0 NullNode, size_avl = 1\<rparr>
     \<and> PAGE_SIZE (pg s) = 4096 \<and> log2PAGE_SIZE (pg s) = 12
     \<and> sharedHeapBottom (pg s) = 0x7fff37ff9000 \<and> sharedHeapTop (pg s) = 0x7ffff7ff9000
     \<and> numProc (pg s) = 8 \<and> currProcMask (pg s) = 1
     \<and> currProcMaskInverted (pg s) = - 2 \<and> sharingProcessesInfo (pg s) = Some (\<lambda>_. 0)
     \<and> aliveProcs (pg s) = 1 \<and> sharedPageCount (pg s) = 1 \<and> allProcPrivatePageCount (pg s) = 193
     \<and> baseCaseTotalPageCount (pg s) = 2
     \<and> initializedPagesBV (pg s) 98112 = 128 \<and> initializedPagesBV (pg s) 98113 = 1
     \<and> zeroPagesBV (pg s) = (\<lambda>_. 0) \<and> zeroPageCount (pg s) = 1 \<and> mmapCount (pg s) = 6
     \<and> tick (pg s) = 12
     \<and> vmap (pg s) 0x7ffff7a00000 = Some (File 0 PROT_READ)
     \<and> vmap (pg s) 0x7ffff7a01000 = Some (Anon PROT_READ_WRITE)
     \<and> siblings s = (\<lambda>_. (0, 0)) \<and> races s = 0"
  by (simp add: handler_defs merge_defs cold1_fields cold1_bits)

lemma cold2_run: "TraverseAVL cold1 = Some cold2"
  using cold2_all unfolding cold2_def by (auto split: option.splits)

lemma cold2_fields:
  "isMPIInitialized cold2" "\<not> isMPIFinalized cold2" "notMPIApp cold2 = 0" "mergeMetric cold2 = 2"
  "mergeMinMemTh cold2 = 2440" "countDownTimer cold2 = 98"
  "allocRecord cold2 = Some \<lparr>root = Node NullNode 0x7ffff7a00000 8192 1 0 NullNode, size_avl = 1\<rparr>"
  "PAGE_SIZE (pg cold2) = 4096" "log2PAGE_SIZE (pg cold2) = 12"
  "sharedHeapBottom (pg cold2) = 0x7fff37ff9000" "sharedHeapTop (pg cold2) = 0x7ffff7ff9000"
  "numProc (pg cold2) = 8" "currProcMask (pg cold2) = 1"
  "currProcMaskInverted (pg cold2) = - 2" "sharingProcessesInfo (pg cold2) = Some (\<lambda>_. 0)"
  "aliveProcs (pg cold2) = 1" "sharedPageCount (pg cold2) = 1" "allProcPrivatePageCount (pg cold2) = 193"
  "baseCaseTotalPageCount (pg cold2) = 2"
  "initializedPagesBV (pg cold2) 98112 = 128" "initializedPagesBV (pg cold2) 98113 = 1"
  "zeroPagesBV (pg cold2) = (\<lambda>_. 0)" "zeroPageCount (pg cold2) = 1" "mmapCount (pg cold2) = 6"
  "tick (pg cold2) = 12"
  "vmap (pg cold2) 0x7ffff7a00000 = Some (File 0 PROT_READ)"
  "vmap (pg cold2) 0x7ffff7a01000 = Some (Anon PROT_READ_WRITE)"
  "siblings cold2 = (\<lambda>_. (0, 0))" "races cold2 = 0"
  using cold2_all unfolding cold2_run by simp_all

text \<open>
  C2.  RemapToZero maps the pages of a zero run onto frame 0 one by one and returns at
  the first mapping that the kernel refuses; the zero bits of the run are only set
  after the loop.  In the run above the merge pass returns with the first page mapped
  read-only onto the zero frame, counted in \<open>zeroPageCount\<close> and taken off the
  private count, while its zero bit is clear, its initialised bit set and its holder
  bit clear: the bookkeeping takes the page for a private one.  The fault handler,
  run for a store to that page, finds neither the zero bit nor the holder bit and
  leaves the page as it is, read-only on the zero frame.
\<close>

theorem zero_remap_aborted:
  "run cold [Alloc 8192, Store 0x7ffff7a00000, Store 0x7ffff7a01000] = Some cold1
   \<and> vmap (pg cold1) 0x7ffff7a00000 = Some (Anon PROT_READ_WRITE)
   \<and> zeroPageCount (pg cold1) = 0 \<and> allProcPrivatePageCount (pg cold1) = 194
   \<and> TraverseAVL cold1 = Some cold2
   \<and> vmap (pg cold2) 0x7ffff7a00000 = Some (File 0 PROT_READ)
   \<and> vmap (pg cold2) 0x7ffff7a01000 = Some (Anon PROT_READ_WRITE)
   \<and> GetBit (pg cold2) (zeroPagesBV (pg cold2)) 0x7ffff7a00000 = Some False
   \<and> GetBit (pg cold2) (initializedPagesBV (pg cold2)) 0x7ffff7a00000 = Some True
   \<and> GetSharingBit (pg cold2) 0x7ffff7a00000 = Some False
   \<and> zeroPageCount (pg cold2) = 1 \<and> allProcPrivatePageCount (pg cold2) = 193
   \<and> (case SigSegvHandler cold2 0x7ffff7a00000 True of
         None \<Rightarrow> False
       | Some s \<Rightarrow> vmap (pg s) 0x7ffff7a00000 = Some (File 0 PROT_READ)
                  \<and> GetBit (pg s) (zeroPagesBV (pg s)) 0x7ffff7a00000 = Some False
                  \<and> zeroPageCount (pg s) = 1 \<and> allProcPrivatePageCount (pg s) = 193)"
proof -
  have bits: "GetBit (pg cold2) (zeroPagesBV (pg cold2)) 0x7ffff7a00000 = Some False
   \<and> GetBit (pg cold2) (initializedPagesBV (pg cold2)) 0x7ffff7a00000 = Some True
   \<and> GetSharingBit (pg cold2) 0x7ffff7a00000 = Some False"
    by (simp add: GetBit_def GetSharingBit_def Addr2PageIndex_def TranslateMmapAddr_def bit_mask_def
        load_entry_def cold2_fields)
  have again: "case SigSegvHandler cold2 0x7ffff7a00000 True of
         None \<Rightarrow> False
       | Some s \<Rightarrow> vmap (pg s) 0x7ffff7a00000 = Some (File 0 PROT_READ)
                  \<and> GetBit (pg s) (zeroPagesBV (pg s)) 0x7ffff7a00000 = Some False
                  \<and> zeroPageCount (pg s) = 1 \<and> allProcPrivatePageCount (pg s) = 193"
    by (simp add: handler_defs GetBit_def cold2_fields)
  show ?thesis
    using cold1_run cold2_run bits again
    by (simp add: cold1_fields cold2_fields)
qed

section \<open>Two merge passes in a row (C7)\<close>

text \<open>
  C7.  A merge pass is the traversal of the index with MergeNode2.  MergeNode2 works on
  a region only when its dirty flag is set and clears the flag afterwards, and nothing
  else in the pass sets a flag or moves the heap window.  So a pass that follows a
  completed pass, with no store by the application in between, finds every region
  clean, makes no call to the kernel and returns the state it was given: no bitmap,
  counter, mapping or dirty flag changes.
\<close>

theorem merge_pass_idempotent:
  assumes "TraverseAVL s = Some s'"
  shows "TraverseAVL s' = Some s'"
proof -
  from assms obtain tree node p where rec: "allocRecord s = Some tree"
    and t: "Traverse MergeNode2 (root tree) (pg s) = Some (node, p)"
    and s': "s' = s\<lparr>allocRecord := Some (tree\<lparr>root := node\<rparr>), pg := p\<rparr>"
    unfolding TraverseAVL_def by (auto split: option.splits bind_splits)
  from Traverse_result [OF t] have "clean node" "keys_in (pg s) node" "window p = window (pg s)"
    by simp_all
  then have "keys_in p node" using keys_in_window [of p "pg s" node] by simp
  with \<open>clean node\<close> have "Traverse MergeNode2 node p = Some (node, p)" by (rule Traverse_clean)
  then show ?thesis unfolding TraverseAVL_def s' by simp
qed

theorem merge_pass_idempotent_witness:
  "TraverseAVL cold1 = Some cold2 \<and> TraverseAVL cold2 = Some cold2
   \<and> allocRecord cold1 = Some \<lparr>root = Node NullNode 0x7ffff7a00000 8192 1 1 NullNode, size_avl = 1\<rparr>
   \<and> allocRecord cold2 = Some \<lparr>root = Node NullNode 0x7ffff7a00000 8192 1 0 NullNode, size_avl = 1\<rparr>"
  using merge_pass_idempotent [of cold1 cold2] cold2_run
  by (simp add: cold1_fields cold2_fields)

end
